theory Spec2Isabelle
  imports Complex_Main
begin

section \<open>The resident call scheduler (monthly\_schedule.py)\<close>

text \<open>
  The program builds a CP-SAT model: it allocates variables, adds constraints over them and
  collects penalty variables whose sum is minimised. The embedding keeps the solver object
  as a record, every method as a function from the object to an error or the updated
  object, and the model as the data the engine receives: the declared variables with their
  domains, the list of constraints and the objective. A solution is an integer valuation of
  the variables that respects the domains and satisfies every constraint.

  Python floats are idealised as exact rationals (\<open>rat\<close>); \<open>int(x)\<close> on a float truncates
  towards zero. The start date is read only by the report printer and is left out.
\<close>

subsection \<open>Errors and the error monad\<close>

datatype error =
    AttributeError | IndexError | KeyError | ValueError
  | ZeroDivisionError | UnboundLocalError

definition bindE :: "error + 'a \<Rightarrow> ('a \<Rightarrow> error + 'b) \<Rightarrow> error + 'b" where
  "bindE m f = (case m of Inl e \<Rightarrow> Inl e | Inr x \<Rightarrow> f x)"

text \<open>Reading an attribute that has not been assigned yet raises AttributeError.\<close>

definition attr :: "'a option \<Rightarrow> error + 'a" where
  "attr a = (case a of None \<Rightarrow> Inl AttributeError | Some x \<Rightarrow> Inr x)"

text \<open>\<open>for x in xs: body\<close>, the first exception ends the loop.\<close>

fun for_each :: "'a list \<Rightarrow> ('a \<Rightarrow> 's \<Rightarrow> error + 's) \<Rightarrow> 's \<Rightarrow> error + 's" where
  "for_each [] f s = Inr s"
| "for_each (x # xs) f s = (case f x s of Inl e \<Rightarrow> Inl e | Inr s' \<Rightarrow> for_each xs f s')"

text \<open>A comprehension whose element expression may raise.\<close>

fun mapE :: "('a \<Rightarrow> error + 'b) \<Rightarrow> 'a list \<Rightarrow> error + 'b list" where
  "mapE f [] = Inr []"
| "mapE f (x # xs) =
     (case f x of Inl e \<Rightarrow> Inl e
      | Inr y \<Rightarrow> (case mapE f xs of Inl e \<Rightarrow> Inl e | Inr ys \<Rightarrow> Inr (y # ys)))"

text \<open>\<open>int(x)\<close> of a float: truncation towards zero.\<close>

definition py_int :: "rat \<Rightarrow> int" where
  "py_int q = (if 0 \<le> q then \<lfloor>q\<rfloor> else \<lceil>q\<rceil>)"

text \<open>\<open>range(start, stop, step)\<close> for a positive step.\<close>

definition range_step :: "int \<Rightarrow> int \<Rightarrow> int \<Rightarrow> int list" where
  "range_step start stop step =
     map (\<lambda>i. start + int i * step) [0 ..< nat ((stop - start + step - 1) div step)]"

subsection \<open>The data model\<close>

text \<open>The Weekday enumeration, as the integers the code compares with.\<close>

definition MONDAY :: int where "MONDAY = 0"
definition TUESDAY :: int where "TUESDAY = 1"
definition WEDNESDAY :: int where "WEDNESDAY = 2"
definition THURSDAY :: int where "THURSDAY = 3"
definition FRIDAY :: int where "FRIDAY = 4"
definition SATURDAY :: int where "SATURDAY = 5"
definition SUNDAY :: int where "SUNDAY = 6"

text \<open>\<open>classification\<close> is a string; only 'junior' and 'senior' are tested for.\<close>

datatype classification = Junior | Senior | OtherClass

record resident =
  name :: string
  on_vacation_days :: "int list"
  on_trauma :: bool
  on_emergency :: bool
  days_override :: "int option"
  claimed_days :: "(int \<times> string) list"

text \<open>
  The engine's variables are objects: two allocations give two variables even when their
  name strings coincide. A variable is identified here by the pattern of its name with the
  resident's name replaced by the number of the variable table \<open>schedules[name]\<close> the
  resident has at that moment; tables are numbered in the order \<open>add_resident_model\<close>
  creates them, so a second resident of the same name gets variables of its own.
\<close>

datatype var =
    Call nat int string
  | Taken string nat
  | LowerBoundReached string nat
  | UpperBoundReached string nat
  | FullDay nat int
  | HalfDayPenalty nat int
  | FridayConflict nat int int
  | FridayPenalty nat int int
  | ExceedsMax nat int
  | WeeklyPenalty nat int
  | WeeklyExceeds nat int int

datatype lit = Pos var | Neg var

datatype expr = Const int | V var | Sum "var list"

datatype cmp = EQ | NE | GE | LE | GT

datatype constr =
    Linear expr cmp expr
  | AtMostOne "lit list"
  | ExactlyOne "lit list"
  | BoolAnd "lit list"
  | BoolXOr "lit list"
  | Implication lit lit
  | OnlyEnforceIf lit constr

text \<open>
  The solver object. An attribute that some code path can read before it is assigned is an
  option. \<open>schedules\<close> maps a resident name to the number of its variable table;
  \<open>variables\<close>, \<open>constraints\<close> and \<open>objective\<close> are the contents of \<open>self.model\<close>.
  \<open>working_days\<close>, \<open>weekends_and_holidays\<close> and the model are assigned at the end of the
  constructor and nothing reads them before.
\<close>

record solver =
  classification :: classification
  num_days :: int
  trauma_shift_multiplier :: int
  shifts :: "string list"
  shifts_per_day :: nat
  max_shifts_per_week :: int
  extra_friday_penalty_amount :: int
  half_day_call_penalty :: int
  days :: "int list"
  schedules :: "string \<rightharpoonup> nat"
  num_tables :: nat
  residents_info :: "resident list option"
  nofill :: "int list option"
  num_nofill :: "nat option"
  days_to_fill :: "int option"
  working_days :: "int list"
  weekends_and_holidays :: "int list"
  call_ratio :: "rat option"
  variables :: "(var \<times> int \<times> int) list"
  constraints :: "constr list"
  objective :: "var list option"
  penalties :: "var list option"

subsection \<open>The engine: allocation, constraints, solutions\<close>

definition NewIntVar :: "var \<Rightarrow> int \<Rightarrow> int \<Rightarrow> solver \<Rightarrow> solver" where
  "NewIntVar v lb ub s = s\<lparr>variables := variables s @ [(v, lb, ub)]\<rparr>"

definition NewBoolVar :: "var \<Rightarrow> solver \<Rightarrow> solver" where
  "NewBoolVar v s = NewIntVar v 0 1 s"

definition Add :: "constr \<Rightarrow> solver \<Rightarrow> solver" where
  "Add c s = s\<lparr>constraints := constraints s @ [c]\<rparr>"

text \<open>\<open>self.penalties.append(v)\<close>; the list exists once \<open>setup_model\<close> has started.\<close>

definition append_penalty :: "var \<Rightarrow> solver \<Rightarrow> error + solver" where
  "append_penalty v s =
     bindE (attr (penalties s)) (\<lambda>ps. Inr (s\<lparr>penalties := Some (ps @ [v])\<rparr>))"

definition eval :: "(var \<Rightarrow> int) \<Rightarrow> expr \<Rightarrow> int" where
  "eval \<sigma> e = (case e of Const c \<Rightarrow> c | V v \<Rightarrow> \<sigma> v | Sum vs \<Rightarrow> sum_list (map \<sigma> vs))"

definition compare :: "cmp \<Rightarrow> int \<Rightarrow> int \<Rightarrow> bool" where
  "compare c a b =
     (case c of EQ \<Rightarrow> a = b | NE \<Rightarrow> a \<noteq> b | GE \<Rightarrow> a \<ge> b | LE \<Rightarrow> a \<le> b | GT \<Rightarrow> a > b)"

fun lit_true :: "(var \<Rightarrow> int) \<Rightarrow> lit \<Rightarrow> bool" where
  "lit_true \<sigma> (Pos v) = (\<sigma> v = 1)"
| "lit_true \<sigma> (Neg v) = (\<sigma> v = 0)"

definition count_true :: "(var \<Rightarrow> int) \<Rightarrow> lit list \<Rightarrow> nat" where
  "count_true \<sigma> ls = length (filter (lit_true \<sigma>) ls)"

text \<open>
  What each constraint of the engine means (its documented contract): linear comparison,
  at most one, exactly one, all, an odd number of the literals true, implication, and a
  constraint that binds only when its enforcement literal is true.
\<close>

fun holds :: "(var \<Rightarrow> int) \<Rightarrow> constr \<Rightarrow> bool" where
  "holds \<sigma> (Linear a c b) = compare c (eval \<sigma> a) (eval \<sigma> b)"
| "holds \<sigma> (AtMostOne ls) = (count_true \<sigma> ls \<le> 1)"
| "holds \<sigma> (ExactlyOne ls) = (count_true \<sigma> ls = 1)"
| "holds \<sigma> (BoolAnd ls) = list_all (lit_true \<sigma>) ls"
| "holds \<sigma> (BoolXOr ls) = odd (count_true \<sigma> ls)"
| "holds \<sigma> (Implication a b) = (lit_true \<sigma> a \<longrightarrow> lit_true \<sigma> b)"
| "holds \<sigma> (OnlyEnforceIf b c) = (lit_true \<sigma> b \<longrightarrow> holds \<sigma> c)"

definition in_domain :: "(var \<Rightarrow> int) \<Rightarrow> var \<times> int \<times> int \<Rightarrow> bool" where
  "in_domain \<sigma> d = (case d of (v, lb, ub) \<Rightarrow> lb \<le> \<sigma> v \<and> \<sigma> v \<le> ub)"

definition solution :: "solver \<Rightarrow> (var \<Rightarrow> int) \<Rightarrow> bool" where
  "solution s \<sigma> = (list_all (in_domain \<sigma>) (variables s) \<and> list_all (holds \<sigma>) (constraints s))"

text \<open>The value of \<open>sum(self.penalties)\<close>, the minimised objective.\<close>

definition penalty_total :: "(var \<Rightarrow> int) \<Rightarrow> var list \<Rightarrow> int" where
  "penalty_total \<sigma> ps = sum_list (map \<sigma> ps)"

subsection \<open>Indexing the variable tables\<close>

text \<open>
  \<open>schedules[name]\<close> is a list with one dictionary per day of \<open>self.days\<close>, keyed by the
  shift labels. A negative index counts from the end; an index out of range raises
  IndexError, a label that is no key raises KeyError.
\<close>

definition table_var :: "solver \<Rightarrow> nat \<Rightarrow> int \<Rightarrow> string \<Rightarrow> error + var" where
  "table_var s t d sh =
     (let n = int (length (days s));
          j = (if d < 0 then n + d else d)
      in if 0 \<le> j \<and> j < n
         then (if sh \<in> set (shifts s) then Inr (Call t (days s ! nat j) sh) else Inl KeyError)
         else Inl IndexError)"

definition table_of :: "solver \<Rightarrow> string \<Rightarrow> error + nat" where
  "table_of s nm = (case schedules s nm of None \<Rightarrow> Inl KeyError | Some t \<Rightarrow> Inr t)"

definition sched_var :: "solver \<Rightarrow> string \<Rightarrow> int \<Rightarrow> string \<Rightarrow> error + var" where
  "sched_var s nm d sh = bindE (table_of s nm) (\<lambda>t. table_var s t d sh)"

text \<open>\<open>self.shifts[0]\<close> and \<open>self.shifts[-1]\<close>.\<close>

definition first_shift :: "solver \<Rightarrow> error + string" where
  "first_shift s = (case shifts s of [] \<Rightarrow> Inl IndexError | x # _ \<Rightarrow> Inr x)"

definition last_shift :: "solver \<Rightarrow> error + string" where
  "last_shift s = (if shifts s = [] then Inl IndexError else Inr (last (shifts s)))"

subsection \<open>The constructor and the resident registry\<close>

text \<open>\<open>add_holiday\<close>: \<open>list.remove\<close> raises ValueError when the day is no working day.\<close>

definition add_holiday :: "int \<Rightarrow> solver \<Rightarrow> error + solver" where
  "add_holiday day s =
     (if day \<in> set (working_days s)
      then Inr (s\<lparr>working_days := sort (remove1 day (working_days s)),
                  weekends_and_holidays := sort (weekends_and_holidays s @ [day])\<rparr>)
      else Inl ValueError)"

text \<open>
  \<open>calculate_call_ratio\<close>: the weighted person-days over all residents, then the true
  division of \<open>days_to_fill\<close> by it (ZeroDivisionError on 0).
\<close>

definition resident_days_available :: "int \<Rightarrow> int \<Rightarrow> resident list \<Rightarrow> int" where
  "resident_days_available mult dtf rs =
     sum_list (map (\<lambda>r. (1 + (if on_trauma r then 1 else 0) * (mult - 1))
                        * (dtf - int (length (on_vacation_days r)))) rs)"

definition calculate_call_ratio :: "solver \<Rightarrow> error + solver" where
  "calculate_call_ratio s =
     bindE (attr (residents_info s)) (\<lambda>rs.
     bindE (attr (days_to_fill s)) (\<lambda>dtf.
       let available = resident_days_available (trauma_shift_multiplier s) dtf rs
       in if available = 0 then Inl ZeroDivisionError
          else Inr (s\<lparr>call_ratio := Some (of_int dtf / of_int available)\<rparr>)))"

text \<open>
  \<open>add_resident_info\<close>: creates \<open>residents_info\<close> when the attribute is missing, strips the
  no-fill days from the vacation list (\<open>remove\<close> inside try/except: one occurrence per
  no-fill day, nothing when absent), appends the entry and recomputes the call ratio.
  \<open>self.nofill\<close> is read by the \<open>for\<close> statement, outside the try.
\<close>

definition add_resident_info :: "resident \<Rightarrow> solver \<Rightarrow> error + solver" where
  "add_resident_info r s =
     (let s1 = (if residents_info s = None then s\<lparr>residents_info := Some []\<rparr> else s)
      in bindE (attr (nofill s1)) (\<lambda>nf.
         bindE (attr (residents_info s1)) (\<lambda>rs.
           calculate_call_ratio
             (s1\<lparr>residents_info :=
                   Some (rs @ [r\<lparr>on_vacation_days := fold remove1 nf (on_vacation_days r)\<rparr>])\<rparr>))))"

definition build_weekday_list :: "int \<Rightarrow> int \<Rightarrow> int list" where
  "build_weekday_list n weekday = range_step weekday n 7"

text \<open>
  \<open>__init__\<close>. The attributes are assigned in the order of the source: the entries of
  \<open>residents_info\<close> are registered (when the argument is truthy) before \<open>nofill\<close>,
  \<open>num_nofill\<close> and \<open>days_to_fill\<close> exist.
\<close>

definition init ::
  "int \<Rightarrow> int list \<Rightarrow> int \<Rightarrow> int \<Rightarrow> resident list option \<Rightarrow> int list \<Rightarrow> string list
     \<Rightarrow> classification \<Rightarrow> error + solver" where
  "init n nofill_arg max_shifts extra_friday_penalty residents_info_arg holidays shifts_arg cls =
     (let s0 = \<lparr>classification = cls, num_days = n, trauma_shift_multiplier = 2,
                shifts = shifts_arg, shifts_per_day = length shifts_arg,
                max_shifts_per_week = max_shifts,
                extra_friday_penalty_amount = extra_friday_penalty,
                half_day_call_penalty = 2, days = [0 .. n - 1],
                schedules = Map.empty, num_tables = 0, residents_info = None,
                nofill = None, num_nofill = None, days_to_fill = None,
                working_days = [], weekends_and_holidays = [], call_ratio = None,
                variables = [], constraints = [], objective = None, penalties = None\<rparr>
      in bindE (case residents_info_arg of
                  None \<Rightarrow> Inr s0
                | Some rs \<Rightarrow> (if rs = [] then Inr s0 else for_each rs add_resident_info s0)) (\<lambda>s1.
         let s2 = s1\<lparr>nofill := Some nofill_arg, num_nofill := Some (length nofill_arg),
                     days_to_fill := Some (n - int (length nofill_arg))\<rparr>;
             weekdays = concat (map (build_weekday_list n)
                                  [MONDAY, TUESDAY, WEDNESDAY, THURSDAY, FRIDAY]);
             weekends = concat (map (build_weekday_list n) [SATURDAY, SUNDAY]);
             s3 = s2\<lparr>working_days := weekdays, weekends_and_holidays := weekends\<rparr>
         in bindE (for_each holidays add_holiday s3) (\<lambda>s4.
              Inr (s4\<lparr>variables := [], constraints := [], objective := None\<rparr>))))"

subsection \<open>The rule functions of the constraint compiler\<close>

text \<open>\<open>model.Add(schedules[name][day][shift] == k)\<close>.\<close>

definition fix_var :: "string \<Rightarrow> int \<Rightarrow> string \<Rightarrow> int \<Rightarrow> solver \<Rightarrow> error + solver" where
  "fix_var nm d sh k s =
     bindE (sched_var s nm d sh) (\<lambda>v. Inr (Add (Linear (V v) EQ (Const k)) s))"

definition assign_claimed_days :: "resident \<Rightarrow> solver \<Rightarrow> error + solver" where
  "assign_claimed_days r s =
     for_each (claimed_days r) (\<lambda>(d, sh). fix_var (name r) d sh 1) s"

definition strictly_bounded ::
  "resident \<Rightarrow> expr \<Rightarrow> int \<Rightarrow> int \<Rightarrow> string \<Rightarrow> solver \<Rightarrow> error + solver" where
  "strictly_bounded r calculation lower_bound upper_bound descr s =
     bindE (table_of s (name r)) (\<lambda>t.
       let shifts_taken = Taken descr t;
           lower_bound_reached = LowerBoundReached descr t;
           upper_bound_reached = UpperBoundReached descr t;
           s1 = NewIntVar shifts_taken 0 (int (length (days s))) s;
           s2 = NewBoolVar lower_bound_reached s1;
           s3 = NewBoolVar upper_bound_reached s2;
           s4 = Add (Linear (V shifts_taken) EQ calculation) s3;
           s5 = Add (Linear (V shifts_taken) GE (Const lower_bound)) s4;
           s6 = Add (Linear (V shifts_taken) LE (Const upper_bound)) s5;
           s7 = Add (OnlyEnforceIf (Pos lower_bound_reached)
                       (Linear (V shifts_taken) EQ (Const lower_bound))) s6;
           s8 = Add (OnlyEnforceIf (Pos upper_bound_reached)
                       (Linear (V shifts_taken) EQ (Const upper_bound))) s7;
           s9 = Add (OnlyEnforceIf (Neg lower_bound_reached)
                       (Linear (V shifts_taken) NE (Const lower_bound))) s8;
           s10 = Add (OnlyEnforceIf (Neg upper_bound_reached)
                       (Linear (V shifts_taken) NE (Const upper_bound))) s9
       in bindE (append_penalty lower_bound_reached s10) (append_penalty upper_bound_reached))"

text \<open>\<open>sum(schedules[name][day][shift] for day in ds)\<close>, the label read once per day.\<close>

definition sum_over_days ::
  "solver \<Rightarrow> string \<Rightarrow> (solver \<Rightarrow> error + string) \<Rightarrow> int list \<Rightarrow> error + expr" where
  "sum_over_days s nm label ds =
     bindE (mapE (\<lambda>d. bindE (label s) (\<lambda>sh. sched_var s nm d sh)) ds) (\<lambda>vs. Inr (Sum vs))"

definition balance_trauma_call :: "resident \<Rightarrow> solver \<Rightarrow> error + solver" where
  "balance_trauma_call r s =
     bindE (attr (residents_info s)) (\<lambda>rs.
       let num_trauma_days = int (length (working_days s));
           trauma_days_available =
             sum_list (map (\<lambda>tr. if on_trauma tr
                                  then int (length (filter (\<lambda>d. d \<notin> set (on_vacation_days tr))
                                                      (working_days s)))
                                  else 0) rs)
       in if trauma_days_available = 0 then Inl ZeroDivisionError
          else
            let trauma_days_ratio = (of_int num_trauma_days / of_int trauma_days_available :: rat);
                num_away_days =
                  int (length (filter (\<lambda>d. d \<in> set (on_vacation_days r)) (days s)))
            in if \<forall>d \<in> set (working_days s). d \<in> set (on_vacation_days r)
               then Inl UnboundLocalError
               else
                 let expected_day_shifts =
                       of_int (num_trauma_days - num_away_days) * trauma_days_ratio;
                     trauma_upper_bound = py_int (expected_day_shifts + 1);
                     trauma_lower_bound = py_int (expected_day_shifts - 1)
                 in bindE (sum_over_days s (name r) first_shift (working_days s)) (\<lambda>calc.
                      strictly_bounded r calc trauma_lower_bound trauma_upper_bound
                        ''trauma_shifts'' s))"

definition emergency_wednesday_halfday :: "resident \<Rightarrow> solver \<Rightarrow> error + solver" where
  "emergency_wednesday_halfday r s =
     (if on_emergency r
      then for_each (filter (\<lambda>d. d mod 7 = WEDNESDAY) (working_days s))
             (\<lambda>d. for_each (shifts s) (\<lambda>sh. fix_var (name r) d sh 0)) s
      else Inr s)"

definition trauma_day_call :: "resident \<Rightarrow> solver \<Rightarrow> error + solver" where
  "trauma_day_call r s =
     (if \<not> on_trauma r
      then for_each (working_days s)
             (\<lambda>d s'. bindE (first_shift s') (\<lambda>sh. fix_var (name r) d sh 0 s')) s
      else Inr s)"

text \<open>
  \<open>post_call_days\<close>: \<open>ignore\<close> is None or a weekday; \<open>day % 7 != None\<close> is always true.
\<close>

definition post_call_days :: "int option \<Rightarrow> resident \<Rightarrow> solver \<Rightarrow> error + solver" where
  "post_call_days ignore r s =
     for_each [0 .. num_days s - 1 - 1]
       (\<lambda>d s'. if Some (d mod 7) \<noteq> ignore
                then for_each (shifts s')
                       (\<lambda>sh s''. bindE (last_shift s'') (\<lambda>l.
                                  bindE (sched_var s'' (name r) d l) (\<lambda>a.
                                  bindE (sched_var s'' (name r) (d + 1) sh) (\<lambda>b.
                                    Inr (Add (AtMostOne [Pos a, Pos b]) s''))))) s'
                else Inr s') s"

definition prefer_full_day_call :: "resident \<Rightarrow> solver \<Rightarrow> error + solver" where
  "prefer_full_day_call r s =
     for_each (days s)
       (\<lambda>d s'. bindE (table_of s' (name r)) (\<lambda>t.
          let full_day_preference_violated = FullDay t d;
              half_day_penalty = HalfDayPenalty t d;
              s1 = NewBoolVar full_day_preference_violated s';
              s2 = NewIntVar half_day_penalty 0 16 s1
          in bindE (first_shift s2) (\<lambda>f.
             bindE (sched_var s2 (name r) d f) (\<lambda>a.
             bindE (last_shift s2) (\<lambda>l.
             bindE (sched_var s2 (name r) d l) (\<lambda>b.
               let s3 = Add (BoolXOr [Pos a, Pos b, Neg full_day_preference_violated]) s2;
                   s4 = Add (OnlyEnforceIf (Pos full_day_preference_violated)
                               (Linear (V half_day_penalty) GE
                                  (Const (half_day_call_penalty s')))) s3
               in append_penalty half_day_penalty s4)))))) s"

text \<open>
  The implication rules: for every day of the given weekday, the last shift of the day
  implies every shift of the day \<open>gap\<close> days later. The later day is indexed without a
  test, so a horizon that ends before it raises IndexError.
\<close>

definition implies_later_day :: "int \<Rightarrow> int \<Rightarrow> resident \<Rightarrow> solver \<Rightarrow> error + solver" where
  "implies_later_day weekday gap r s =
     for_each (days s)
       (\<lambda>d s'. if d mod 7 = weekday
                then for_each (shifts s')
                       (\<lambda>sh s''. bindE (last_shift s'') (\<lambda>l.
                                  bindE (sched_var s'' (name r) d l) (\<lambda>a.
                                  bindE (sched_var s'' (name r) (d + gap) sh) (\<lambda>b.
                                    Inr (Add (Implication (Pos a) (Pos b)) s''))))) s'
                else Inr s') s"

definition friday_implies_sunday :: "resident \<Rightarrow> solver \<Rightarrow> error + solver" where
  "friday_implies_sunday r s = implies_later_day FRIDAY 2 r s"

definition friday_implies_saturday :: "resident \<Rightarrow> solver \<Rightarrow> error + solver" where
  "friday_implies_saturday r s = implies_later_day FRIDAY 1 r s"

definition multiday_implication :: "int \<Rightarrow> int \<Rightarrow> resident \<Rightarrow> solver \<Rightarrow> error + solver" where
  "multiday_implication first second r s = implies_later_day first ((second - first) mod 7) r s"

text \<open>
  \<open>penalize_multiple_fridays\<close>: the conflict flag enforces both Friday variables and a
  minimum for the penalty variable; the statement that would set the flag when both are
  assigned is commented out in the source.
\<close>

definition penalize_multiple_fridays :: "resident \<Rightarrow> solver \<Rightarrow> error + solver" where
  "penalize_multiple_fridays r s =
     for_each (filter (\<lambda>d. d mod 7 = FRIDAY) (days s))
       (\<lambda>friday s'.
          let other_friday = friday + 7
          in if other_friday \<notin> set (days s') then Inr s'
             else bindE (table_of s' (name r)) (\<lambda>t.
               let friday_conflict = FridayConflict t friday other_friday;
                   friday_penalty = FridayPenalty t friday other_friday;
                   s1 = NewBoolVar friday_conflict s';
                   s2 = NewIntVar friday_penalty 0 16 s1
               in bindE (last_shift s2) (\<lambda>l.
                  bindE (sched_var s2 (name r) friday l) (\<lambda>a.
                  bindE (sched_var s2 (name r) other_friday l) (\<lambda>b.
                    let s3 = Add (OnlyEnforceIf (Pos friday_conflict)
                                    (BoolAnd [Pos a, Pos b])) s2;
                        s4 = Add (OnlyEnforceIf (Pos friday_conflict)
                                    (Linear (V friday_penalty) GE
                                       (Const (extra_friday_penalty_amount s')))) s3
                    in append_penalty friday_penalty s4))))) s"

text \<open>
  \<open>disperse_call\<close>: per aligned week, a flag tied both ways to the weekly total exceeding the
  cap, a penalty variable in [0, 7], and for every \<open>i\<close> in \<open>range(cap + 1, 7)\<close> a flag that
  enforces \<open>total >= i\<close> and \<open>penalty >= 2 * i\<close>; the penalty variable is appended to the
  penalties once per \<open>i\<close>.
\<close>

definition disperse_call :: "resident \<Rightarrow> solver \<Rightarrow> error + solver" where
  "disperse_call r s =
     for_each [0 .. num_days s div 7 - 1]
       (\<lambda>week s'.
          let start_day = week * 7;
              end_day = start_day + 7
          in bindE (mapE (\<lambda>(d, sh). sched_var s' (name r) d sh)
                      (concat (map (\<lambda>d. map (\<lambda>sh. (d, sh)) (shifts s'))
                                 [start_day .. end_day - 1]))) (\<lambda>vs.
             bindE (table_of s' (name r)) (\<lambda>t.
               let weekly_calls = Sum vs;
                   exceeds_max_calls = ExceedsMax t week;
                   s1 = NewBoolVar exceeds_max_calls s';
                   s2 = Add (OnlyEnforceIf (Neg exceeds_max_calls)
                               (Linear weekly_calls LE (Const (max_shifts_per_week s')))) s1;
                   s3 = Add (OnlyEnforceIf (Pos exceeds_max_calls)
                               (Linear weekly_calls GT (Const (max_shifts_per_week s')))) s2;
                   weekly_penalty = WeeklyPenalty t week;
                   s4 = NewIntVar weekly_penalty 0 7 s3
               in for_each [max_shifts_per_week s' + 1 .. 6]
                    (\<lambda>i s''.
                       let weekly_exceeds_i = WeeklyExceeds t week i;
                           s5 = NewBoolVar weekly_exceeds_i s'';
                           s6 = Add (OnlyEnforceIf (Pos weekly_exceeds_i)
                                       (Linear weekly_calls GE (Const i))) s5;
                           s7 = Add (OnlyEnforceIf (Pos weekly_exceeds_i)
                                       (Linear (V weekly_penalty) GE (Const (2 * i)))) s6
                       in append_penalty weekly_penalty s7) s4))) s"

text \<open>
  \<open>set_shift_expectations\<close>. The override is tested for truth (\<open>if resident['days_override']\<close>):
  None and 0 both take the computed branch.
\<close>

definition truthy :: "int option \<Rightarrow> bool" where
  "truthy x = (case x of None \<Rightarrow> False | Some n \<Rightarrow> n \<noteq> 0)"

definition expected_night_shifts :: "resident \<Rightarrow> solver \<Rightarrow> error + rat" where
  "expected_night_shifts r s =
     (if truthy (days_override r) then Inr (of_int (the (days_override r)))
      else bindE (attr (call_ratio s)) (\<lambda>cr.
             Inr (of_int (int (length (days s)) - int (length (on_vacation_days r)))
                  * cr
                  * (if on_trauma r then of_int (trauma_shift_multiplier s) else 1))))"

definition set_shift_expectations :: "resident \<Rightarrow> solver \<Rightarrow> error + solver" where
  "set_shift_expectations r s =
     bindE (expected_night_shifts r s) (\<lambda>expected.
       let lower_bound = py_int (expected - 1);
           upper_bound = py_int (expected + 1)
       in bindE (sum_over_days s (name r) last_shift (days s)) (\<lambda>calc.
          bindE (strictly_bounded r calc lower_bound upper_bound ''total_shifts'' s) (\<lambda>s1.
            let expected_weekend_shifts = expected * 2 / 7;
                weekend_upper_bound = py_int (expected_weekend_shifts + 1);
                weekend_lower_bound = py_int (expected_weekend_shifts - 1)
            in bindE (sum_over_days s1 (name r) first_shift (weekends_and_holidays s1)) (\<lambda>calc2.
                 strictly_bounded r calc2 weekend_lower_bound weekend_upper_bound
                   ''weekend_shift'' s1))))"

definition cant_book_vacation_days :: "resident \<Rightarrow> solver \<Rightarrow> error + solver" where
  "cant_book_vacation_days r s =
     for_each (days s)
       (\<lambda>d s'. if d \<in> set (on_vacation_days r)
                then for_each (shifts s') (\<lambda>sh. fix_var (name r) d sh 0) s'
                else Inr s') s"

text \<open>\<open>cant_book_nofill_days\<close> is defined in the source; no function calls it.\<close>

definition cant_book_nofill_days :: "resident \<Rightarrow> solver \<Rightarrow> error + solver" where
  "cant_book_nofill_days r s =
     bindE (attr (nofill s)) (\<lambda>nf.
       for_each nf (\<lambda>d s'. for_each (shifts s') (\<lambda>sh. fix_var (name r) d sh 0) s') s)"

subsection \<open>Compiling the model\<close>

text \<open>
  \<open>add_resident_model\<close>: a new variable table for the resident's name (one boolean per day
  and shift), then the rule functions in order, then the trauma balance for a high-acuity
  resident of a junior schedule.
\<close>

definition add_resident_model ::
  "resident \<Rightarrow> (resident \<Rightarrow> solver \<Rightarrow> error + solver) list \<Rightarrow> solver \<Rightarrow> error + solver" where
  "add_resident_model r build_functions s =
     (let t = num_tables s;
          s1 = fold NewBoolVar
                 (concat (map (\<lambda>d. map (\<lambda>sh. Call t d sh) (shifts s)) (days s))) s;
          s2 = s1\<lparr>schedules := (schedules s1)(name r \<mapsto> t), num_tables := Suc t\<rparr>
      in bindE (for_each build_functions (\<lambda>func. func r) s2) (\<lambda>s3.
           if on_trauma r \<and> classification s3 = Junior then balance_trauma_call r s3
           else Inr s3))"

definition junior_build_functions :: "(resident \<Rightarrow> solver \<Rightarrow> error + solver) list" where
  "junior_build_functions =
     [emergency_wednesday_halfday,
      cant_book_vacation_days,
      trauma_day_call,
      post_call_days None,
      prefer_full_day_call,
      penalize_multiple_fridays,
      disperse_call,
      set_shift_expectations,
      friday_implies_sunday,
      assign_claimed_days]"

definition senior_build_functions :: "(resident \<Rightarrow> solver \<Rightarrow> error + solver) list" where
  "senior_build_functions =
     [cant_book_vacation_days,
      post_call_days (Some FRIDAY),
      penalize_multiple_fridays,
      disperse_call,
      set_shift_expectations,
      friday_implies_saturday,
      assign_claimed_days]"

text \<open>
  \<open>build_functions\<close> is bound only for 'junior' and 'senior'; for another classification the
  first use of the name, inside the loop over the residents, raises UnboundLocalError.
\<close>

definition build_functions_of ::
  "classification \<Rightarrow> error + (resident \<Rightarrow> solver \<Rightarrow> error + solver) list" where
  "build_functions_of c =
     (case c of Junior \<Rightarrow> Inr junior_build_functions
      | Senior \<Rightarrow> Inr senior_build_functions
      | OtherClass \<Rightarrow> Inl UnboundLocalError)"

text \<open>The coverage constraint of one day and shift.\<close>

definition cover_shift :: "int \<Rightarrow> string \<Rightarrow> solver \<Rightarrow> error + solver" where
  "cover_shift d sh s =
     bindE (attr (residents_info s)) (\<lambda>rs.
     bindE (mapE (\<lambda>r. sched_var s (name r) d sh) rs) (\<lambda>vs.
       Inr (Add (ExactlyOne (map Pos vs)) s)))"

definition cover_day :: "int \<Rightarrow> solver \<Rightarrow> error + solver" where
  "cover_day d s =
     bindE (attr (nofill s)) (\<lambda>nf.
       if d \<notin> set nf then for_each (shifts s) (cover_shift d) s else Inr s)"

definition setup_model :: "solver \<Rightarrow> error + solver" where
  "setup_model s =
     (let s1 = s\<lparr>penalties := Some []\<rparr>
      in bindE (attr (residents_info s1)) (\<lambda>rs.
         bindE (for_each rs
                  (\<lambda>r s'. bindE (build_functions_of (classification s')) (\<lambda>bf.
                             add_resident_model r bf s')) s1) (\<lambda>s2.
         bindE (for_each (days s2) cover_day s2) (\<lambda>s3.
         bindE (attr (penalties s3)) (\<lambda>ps.
           Inr (s3\<lparr>objective := Some ps\<rparr>))))))"

section \<open>Vocabulary of the proofs\<close>

text \<open>
  Two relations between states of the solver object. \<open>same_config\<close>: the configuration
  attributes agree and the model has only grown. \<open>frame\<close>: in addition the variable tables
  are the same; every rule function relates its input and output this way.
  \<open>resident_step\<close> names the body of the loop over the residents in \<open>setup_model\<close>.
\<close>

definition same_config :: "solver \<Rightarrow> solver \<Rightarrow> bool" where
  "same_config s s' =
     (classification s' = classification s \<and> num_days s' = num_days s
      \<and> trauma_shift_multiplier s' = trauma_shift_multiplier s \<and> shifts s' = shifts s
      \<and> max_shifts_per_week s' = max_shifts_per_week s
      \<and> extra_friday_penalty_amount s' = extra_friday_penalty_amount s
      \<and> half_day_call_penalty s' = half_day_call_penalty s \<and> days s' = days s
      \<and> residents_info s' = residents_info s \<and> nofill s' = nofill s
      \<and> days_to_fill s' = days_to_fill s \<and> working_days s' = working_days s
      \<and> weekends_and_holidays s' = weekends_and_holidays s \<and> call_ratio s' = call_ratio s
      \<and> set (variables s) \<subseteq> set (variables s')
      \<and> set (constraints s) \<subseteq> set (constraints s'))"

definition frame :: "solver \<Rightarrow> solver \<Rightarrow> bool" where
  "frame s s' =
     (same_config s s' \<and> schedules s' = schedules s \<and> num_tables s' = num_tables s)"

definition resident_step :: "resident \<Rightarrow> solver \<Rightarrow> error + solver" where
  "resident_step r s' =
     bindE (build_functions_of (classification s')) (\<lambda>bf. add_resident_model r bf s')"

section \<open>Concrete schedules\<close>

text \<open>
  The inputs at which the theorems are evaluated. Each block is the solver object as the
  constructor and \<open>add_resident_info\<close> leave it (lemmas \<open>two_day_block_built\<close>,
  \<open>junior_day_built\<close>, \<open>fortnight_block_built\<close>), each model is what \<open>setup_model\<close>
  returns for it, and each roster is a valuation of the model's variables.
\<close>

text \<open>Two residents without vacation, rotation flags, override or claimed days.\<close>

definition resident_A :: resident where
  "resident_A = \<lparr>name = ''A'', on_vacation_days = [], on_trauma = False, on_emergency = False,
     days_override = None, claimed_days = []\<rparr>"

definition resident_B :: resident where
  "resident_B = \<lparr>name = ''B'', on_vacation_days = [], on_trauma = False, on_emergency = False,
     days_override = None, claimed_days = []\<rparr>"

text \<open>
  A senior night-call block of two days, day 1 no-fill:
  \<open>ResidentSchedulingSolver(num_days=2, nofill=[1], shifts=['night'], classification='senior')\<close>
  followed by \<open>add_resident_info("A")\<close> and \<open>add_resident_info("B")\<close>.
\<close>

definition two_day_block :: solver where
  "two_day_block = \<lparr>classification = Senior, num_days = 2, trauma_shift_multiplier = 2,
     shifts = [''night''], shifts_per_day = 1, max_shifts_per_week = 1,
     extra_friday_penalty_amount = 5, half_day_call_penalty = 2,
     days = [0, 1],
     schedules = Map.empty, num_tables = 0, residents_info = Some [resident_A, resident_B],
     nofill = Some [1], num_nofill = Some 1, days_to_fill = Some 1,
     working_days = [0, 1], weekends_and_holidays = [],
     call_ratio = Some (1 / 2), variables = [], constraints = [], objective = None,
     penalties = None\<rparr>"

definition two_day_model :: solver where
  "two_day_model = projr (setup_model two_day_block)"

text \<open>A works the night of day 0 and B the night of the no-fill day 1.\<close>

definition two_day_roster :: "var \<Rightarrow> int" where
  "two_day_roster v = (case v of
      Call t d sh \<Rightarrow> (if (t = 0 \<and> d = 0) \<or> (t = 1 \<and> d = 1) then 1 else 0)
    | Taken descr t \<Rightarrow> (if descr = ''total_shifts'' then 1 else 0)
    | LowerBoundReached descr t \<Rightarrow> (if descr = ''weekend_shift'' then 1 else 0)
    | _ \<Rightarrow> 0)"

text \<open>A high-acuity resident and one who is not.\<close>

definition resident_T :: resident where
  "resident_T = \<lparr>name = ''T'', on_vacation_days = [], on_trauma = True, on_emergency = False,
     days_override = None, claimed_days = []\<rparr>"

definition resident_N :: resident where
  "resident_N = \<lparr>name = ''N'', on_vacation_days = [], on_trauma = False, on_emergency = False,
     days_override = None, claimed_days = []\<rparr>"

text \<open>
  A junior schedule of one day with the shifts 'day' and 'night':
  \<open>ResidentSchedulingSolver(num_days=1, classification='junior')\<close> followed by
  \<open>add_resident_info("T", on_trauma=True)\<close> and \<open>add_resident_info("N")\<close>.
\<close>

definition junior_day :: solver where
  "junior_day = \<lparr>classification = Junior, num_days = 1, trauma_shift_multiplier = 2,
     shifts = [''day'', ''night''], shifts_per_day = 2, max_shifts_per_week = 1,
     extra_friday_penalty_amount = 5, half_day_call_penalty = 2,
     days = [0],
     schedules = Map.empty, num_tables = 0, residents_info = Some [resident_T, resident_N],
     nofill = Some [], num_nofill = Some 0, days_to_fill = Some 1,
     working_days = [0], weekends_and_holidays = [],
     call_ratio = Some (1 / 3), variables = [], constraints = [], objective = None,
     penalties = None\<rparr>"

definition junior_day_model :: solver where
  "junior_day_model = projr (setup_model junior_day)"

text \<open>T works both shifts of the day, N none.\<close>

definition junior_day_roster :: "var \<Rightarrow> int" where
  "junior_day_roster v = (case v of
      Call t d sh \<Rightarrow> (if t = 0 then 1 else 0)
    | Taken descr t \<Rightarrow> (if descr = ''weekend_shift'' then 0 else if t = 0 then 1 else 0)
    | LowerBoundReached descr t \<Rightarrow>
        (if descr = ''weekend_shift'' \<or> (descr = ''total_shifts'' \<and> t = 1) then 1 else 0)
    | UpperBoundReached descr t \<Rightarrow> (if descr = ''total_shifts'' \<and> t = 0 then 1 else 0)
    | _ \<Rightarrow> 0)"

text \<open>A resident whose expected number of night shifts is overridden to 5.\<close>

definition resident_A5 :: resident where
  "resident_A5 = \<lparr>name = ''A'', on_vacation_days = [], on_trauma = False, on_emergency = False,
     days_override = Some 5, claimed_days = []\<rparr>"

text \<open>
  A senior night-call block of two weeks in which only the days 2, 4, 5, 11 and 12 are to be
  filled:
  \<open>ResidentSchedulingSolver(num_days=14, nofill=[0, 1, 3, 6, 7, 8, 9, 10, 13], shifts=['night'],
  classification='senior')\<close> followed by \<open>add_resident_info("A", days_override=5)\<close>.
\<close>

definition fortnight_block :: solver where
  "fortnight_block = \<lparr>classification = Senior, num_days = 14, trauma_shift_multiplier = 2,
     shifts = [''night''], shifts_per_day = 1, max_shifts_per_week = 1,
     extra_friday_penalty_amount = 5, half_day_call_penalty = 2,
     days = [0, 1, 2, 3, 4, 5, 6, 7, 8, 9, 10, 11, 12, 13],
     schedules = Map.empty, num_tables = 0, residents_info = Some [resident_A5],
     nofill = Some [0, 1, 3, 6, 7, 8, 9, 10, 13], num_nofill = Some 9,
     days_to_fill = Some 5,
     working_days = [0, 7, 1, 8, 2, 9, 3, 10, 4, 11], weekends_and_holidays = [5, 12, 6, 13],
     call_ratio = Some 1, variables = [], constraints = [], objective = None,
     penalties = None\<rparr>"

definition fortnight_model :: solver where
  "fortnight_model = projr (setup_model fortnight_block)"

text \<open>
  A works Wednesday 2, both Fridays 4 and 11 and both Saturdays 5 and 12; no conflict flag,
  no \<open>weekly_exceeds\<close> flag and no penalty variable is set.
\<close>

definition fortnight_roster :: "var \<Rightarrow> int" where
  "fortnight_roster v = (case v of
      Call t d sh \<Rightarrow> (if d \<in> set [2, 4, 5, 11, 12] then 1 else 0)
    | Taken descr t \<Rightarrow> (if descr = ''total_shifts'' then 5 else 2)
    | UpperBoundReached descr t \<Rightarrow> (if descr = ''weekend_shift'' then 1 else 0)
    | ExceedsMax t w \<Rightarrow> 1
    | _ \<Rightarrow> 0)"

text \<open>The penalty list the model minimises the sum of, in the order it is built.\<close>

definition fortnight_objective :: "var list" where
  "fortnight_objective =
     [FridayPenalty 0 4 11,
      WeeklyPenalty 0 0, WeeklyPenalty 0 0, WeeklyPenalty 0 0, WeeklyPenalty 0 0,
      WeeklyPenalty 0 0,
      WeeklyPenalty 0 1, WeeklyPenalty 0 1, WeeklyPenalty 0 1, WeeklyPenalty 0 1,
      WeeklyPenalty 0 1,
      LowerBoundReached ''total_shifts'' 0, UpperBoundReached ''total_shifts'' 0,
      LowerBoundReached ''weekend_shift'' 0, UpperBoundReached ''weekend_shift'' 0]"

text \<open>A resident whose override is 0, and a state in which A's variable table exists.\<close>

definition resident_A0 :: resident where
  "resident_A0 = \<lparr>name = ''A'', on_vacation_days = [], on_trauma = False, on_emergency = False,
     days_override = Some 0, claimed_days = []\<rparr>"

definition table_ready :: solver where
  "table_ready = two_day_block\<lparr>schedules := [''A'' \<mapsto> 0], num_tables := 1, penalties := Some []\<rparr>"

section \<open>Properties of the compiler\<close>

subsection \<open>Rule functions only add to the model\<close>

lemma frame_refl: "frame s s"
  by (simp add: frame_def same_config_def)

lemma frame_trans: "frame a b \<Longrightarrow> frame b c \<Longrightarrow> frame a c"
  unfolding frame_def same_config_def by auto

lemma frame_Add: "frame s a \<Longrightarrow> frame s (Add c a)"
  unfolding frame_def same_config_def Add_def by auto

lemma frame_NewIntVar: "frame s a \<Longrightarrow> frame s (NewIntVar v lb ub a)"
  unfolding frame_def same_config_def NewIntVar_def by auto

lemma frame_NewBoolVar: "frame s a \<Longrightarrow> frame s (NewBoolVar v a)"
  unfolding NewBoolVar_def by (rule frame_NewIntVar)

lemma frame_append_penalty: "append_penalty v a = Inr b \<Longrightarrow> frame s a \<Longrightarrow> frame s b"
  unfolding frame_def same_config_def append_penalty_def bindE_def attr_def
  by (auto split: option.splits)

lemma frame_fields:
  assumes "frame s s'"
  shows "classification s' = classification s" "num_days s' = num_days s"
    "trauma_shift_multiplier s' = trauma_shift_multiplier s" "shifts s' = shifts s"
    "max_shifts_per_week s' = max_shifts_per_week s"
    "extra_friday_penalty_amount s' = extra_friday_penalty_amount s"
    "half_day_call_penalty s' = half_day_call_penalty s" "days s' = days s"
    "schedules s' = schedules s" "num_tables s' = num_tables s"
    "residents_info s' = residents_info s" "nofill s' = nofill s"
    "days_to_fill s' = days_to_fill s" "working_days s' = working_days s"
    "weekends_and_holidays s' = weekends_and_holidays s" "call_ratio s' = call_ratio s"
  using assms unfolding frame_def same_config_def by simp_all

lemma frame_constraints: "frame s s' \<Longrightarrow> c \<in> set (constraints s) \<Longrightarrow> c \<in> set (constraints s')"
  unfolding frame_def same_config_def by auto

lemma frame_variables: "frame s s' \<Longrightarrow> x \<in> set (variables s) \<Longrightarrow> x \<in> set (variables s')"
  unfolding frame_def same_config_def by auto

lemma frame_lookups:
  assumes "frame s s'"
  shows "table_var s' = table_var s" "table_of s' = table_of s" "sched_var s' = sched_var s"
    "first_shift s' = first_shift s" "last_shift s' = last_shift s"
  by (simp_all add: table_var_def table_of_def sched_var_def first_shift_def last_shift_def
        fun_eq_iff Let_def frame_fields [OF assms] cong: if_cong)

lemma for_each_frame:
  assumes "for_each xs f s = Inr s'"
    and "\<And>x a b. x \<in> set xs \<Longrightarrow> f x a = Inr b \<Longrightarrow> frame a b"
  shows "frame s s'"
  using assms
proof (induction xs arbitrary: s)
  case Nil
  then show ?case by (simp add: frame_refl)
next
  case (Cons x xs)
  from Cons.prems(1) obtain s1 where s1: "f x s = Inr s1" and rest: "for_each xs f s1 = Inr s'"
    by (auto split: sum.splits)
  have "frame s s1" using Cons.prems(2) [of x] s1 by simp
  moreover have "frame s1 s'" using Cons.IH [OF rest] Cons.prems(2) by (meson list.set_intros)
  ultimately show ?case by (rule frame_trans)
qed

text \<open>
  What one iteration of a loop establishes still holds after the loop, when every iteration
  only adds to the model.
\<close>

lemma for_each_establishes:
  assumes "for_each xs f s = Inr s'" and "x \<in> set xs"
    and "\<And>y a b. y \<in> set xs \<Longrightarrow> f y a = Inr b \<Longrightarrow> frame a b"
    and "\<And>a b. frame s a \<Longrightarrow> f x a = Inr b \<Longrightarrow> Q b"
    and stable: "\<And>a b. Q a \<Longrightarrow> frame a b \<Longrightarrow> Q b"
  shows "Q s'"
  using assms(1-4)
proof (induction xs arbitrary: s)
  case Nil
  then show ?case by simp
next
  case (Cons y ys)
  from Cons.prems(1) obtain s1 where s1: "f y s = Inr s1" and rest: "for_each ys f s1 = Inr s'"
    by (auto split: sum.splits)
  have mono: "\<And>z a b. z \<in> set ys \<Longrightarrow> f z a = Inr b \<Longrightarrow> frame a b"
    using Cons.prems(3) by (meson list.set_intros)
  have fr1: "frame s s1" using Cons.prems(3) [of y] s1 by simp
  have fr2: "frame s1 s'" using for_each_frame [OF rest] mono by blast
  show ?case
  proof (cases "x = y")
    case True
    have "Q s1" using Cons.prems(4) [OF frame_refl] s1 True by simp
    then show ?thesis using fr2 by (rule stable)
  next
    case False
    then have mem: "x \<in> set ys" using Cons.prems(2) by simp
    show ?thesis
    proof (rule Cons.IH [OF rest mem])
      fix z a b assume "z \<in> set ys" "f z a = Inr b"
      then show "frame a b" by (rule mono)
    next
      fix a b assume "frame s1 a" "f x a = Inr b"
      then show "Q b" using Cons.prems(4) frame_trans [OF fr1] by blast
    qed
  qed
qed

lemma append_penalty_frame: "append_penalty v a = Inr b \<Longrightarrow> frame a b"
  by (rule frame_append_penalty [OF _ frame_refl])

lemmas frame_intros = frame_Add frame_NewIntVar frame_NewBoolVar frame_refl

lemma fix_var_frame: "fix_var nm d sh k a = Inr b \<Longrightarrow> frame a b"
  unfolding fix_var_def bindE_def
  by (auto split: sum.splits intro!: frame_intros)

lemma assign_claimed_days_frame: "assign_claimed_days r a = Inr b \<Longrightarrow> frame a b"
  unfolding assign_claimed_days_def
  by (erule for_each_frame) (auto dest: fix_var_frame)

lemma strictly_bounded_frame: "strictly_bounded r calc lb ub descr a = Inr b \<Longrightarrow> frame a b"
  apply (clarsimp simp: strictly_bounded_def bindE_def Let_def split: sum.splits)
  apply (drule append_penalty_frame)+
  apply (erule frame_trans [rotated])
  apply (erule frame_trans [rotated])
  apply (intro frame_intros)
  done

lemma balance_trauma_call_frame: "balance_trauma_call r a = Inr b \<Longrightarrow> frame a b"
  unfolding balance_trauma_call_def bindE_def Let_def
  by (auto split: sum.splits if_splits dest: strictly_bounded_frame)

lemma emergency_wednesday_halfday_frame: "emergency_wednesday_halfday r a = Inr b \<Longrightarrow> frame a b"
  unfolding emergency_wednesday_halfday_def
  by (auto split: if_splits elim!: for_each_frame dest: fix_var_frame simp: frame_refl)

lemma trauma_day_call_frame: "trauma_day_call r a = Inr b \<Longrightarrow> frame a b"
  unfolding trauma_day_call_def bindE_def
  by (auto split: if_splits sum.splits elim!: for_each_frame dest: fix_var_frame simp: frame_refl)

lemma post_call_days_frame: "post_call_days ig r a = Inr b \<Longrightarrow> frame a b"
  unfolding post_call_days_def bindE_def
  by (auto split: if_splits sum.splits elim!: for_each_frame intro!: frame_intros)

lemma prefer_full_day_call_frame: "prefer_full_day_call r a = Inr b \<Longrightarrow> frame a b"
  unfolding prefer_full_day_call_def
  apply (erule for_each_frame)
  apply (clarsimp simp: bindE_def Let_def split: sum.splits)
  apply (drule append_penalty_frame)
  apply (erule frame_trans [rotated])
  apply (intro frame_intros)
  done

lemma implies_later_day_frame: "implies_later_day w g r a = Inr b \<Longrightarrow> frame a b"
  unfolding implies_later_day_def bindE_def
  by (auto split: if_splits sum.splits elim!: for_each_frame intro!: frame_intros)

lemma penalize_multiple_fridays_frame: "penalize_multiple_fridays r a = Inr b \<Longrightarrow> frame a b"
  unfolding penalize_multiple_fridays_def
  apply (erule for_each_frame)
  apply (clarsimp simp: bindE_def Let_def frame_refl split: sum.splits if_splits)
  apply (drule append_penalty_frame)
  apply (erule frame_trans [rotated])
  apply (intro frame_intros)
  done

lemma disperse_call_frame: "disperse_call r a = Inr b \<Longrightarrow> frame a b"
  unfolding disperse_call_def
  apply (erule for_each_frame)
  apply (clarsimp simp: bindE_def Let_def split: sum.splits)
  apply (rule frame_trans [rotated])
   apply (erule for_each_frame)
   apply (drule append_penalty_frame)
   apply (erule frame_trans [rotated])
   apply (intro frame_intros)
  apply (intro frame_intros)
  done

lemma set_shift_expectations_frame: "set_shift_expectations r a = Inr b \<Longrightarrow> frame a b"
  apply (clarsimp simp: set_shift_expectations_def bindE_def Let_def split: sum.splits)
  apply (drule strictly_bounded_frame)+
  apply (erule (1) frame_trans)
  done

lemma cant_book_vacation_days_frame: "cant_book_vacation_days r a = Inr b \<Longrightarrow> frame a b"
  unfolding cant_book_vacation_days_def
  by (auto split: if_splits elim!: for_each_frame dest: fix_var_frame simp: frame_refl)

subsection \<open>The loop over the residents\<close>

lemma same_config_refl: "same_config s s"
  by (simp add: same_config_def)

lemma same_config_trans: "same_config a b \<Longrightarrow> same_config b c \<Longrightarrow> same_config a c"
  unfolding same_config_def by auto

lemma frame_same_config: "frame a b \<Longrightarrow> same_config a b"
  by (simp add: frame_def)

lemma same_config_lookups:
  assumes "same_config s s'"
  shows "table_var s' = table_var s" "first_shift s' = first_shift s" "last_shift s' = last_shift s"
  using assms
  by (simp_all add: table_var_def first_shift_def last_shift_def fun_eq_iff Let_def
        same_config_def cong: if_cong)

lemma same_config_constraints:
  "same_config s s' \<Longrightarrow> c \<in> set (constraints s) \<Longrightarrow> c \<in> set (constraints s')"
  unfolding same_config_def by auto

lemma fold_NewBoolVar_frame: "frame a (fold NewBoolVar vs a)"
proof (induction vs arbitrary: a)
  case Nil
  show ?case by (simp add: frame_refl)
next
  case (Cons v vs)
  have "frame a (NewBoolVar v a)" by (intro frame_intros)
  then show ?case using Cons.IH [of "NewBoolVar v a"] by (auto intro: frame_trans)
qed

lemma sched_var_table:
  "schedules x nm = Some t \<Longrightarrow> sched_var x nm d sh = table_var x t d sh"
  by (simp add: sched_var_def table_of_def bindE_def)

lemma add_resident_model_grow:
  assumes run: "add_resident_model r bfs a = Inr b"
    and bfs: "\<And>f x y. f \<in> set bfs \<Longrightarrow> f r x = Inr y \<Longrightarrow> frame x y"
  shows "same_config a b" "num_tables b = Suc (num_tables a)"
    "schedules b = (schedules a)(name r \<mapsto> num_tables a)"
proof -
  define s1 where "s1 = fold NewBoolVar
      (concat (map (\<lambda>d. map (\<lambda>sh. Call (num_tables a) d sh) (shifts a)) (days a))) a"
  define s2 where "s2 = s1\<lparr>schedules := (schedules s1)(name r \<mapsto> num_tables a),
      num_tables := Suc (num_tables a)\<rparr>"
  have f1: "frame a s1" unfolding s1_def by (rule fold_NewBoolVar_frame)
  have c2: "same_config a s2"
    using f1 unfolding s2_def frame_def same_config_def by simp
  have t2: "num_tables s2 = Suc (num_tables a)" by (simp add: s2_def)
  have m2: "schedules s2 = (schedules a)(name r \<mapsto> num_tables a)"
    using f1 by (simp add: s2_def frame_def)
  from run obtain s3 where s3: "for_each bfs (\<lambda>func. func r) s2 = Inr s3"
    and fin: "(if on_trauma r \<and> classification s3 = Junior then balance_trauma_call r s3
               else Inr s3) = Inr b"
    unfolding add_resident_model_def Let_def bindE_def s1_def [symmetric] s2_def [symmetric]
    by (auto split: sum.splits)
  have f3: "frame s2 s3" using s3 bfs by (rule for_each_frame)
  have f4: "frame s3 b" using fin
    by (auto split: if_splits intro: frame_refl balance_trauma_call_frame)
  have f: "frame s2 b" using f3 f4 by (rule frame_trans)
  show "same_config a b" using c2 frame_same_config [OF f] by (rule same_config_trans)
  show "num_tables b = Suc (num_tables a)" using f t2 by (simp add: frame_def)
  show "schedules b = (schedules a)(name r \<mapsto> num_tables a)" using f m2 by (simp add: frame_def)
qed

lemma add_resident_model_establishes:
  assumes run: "add_resident_model r bfs a = Inr b"
    and mem: "f \<in> set bfs"
    and bfs: "\<And>g x y. g \<in> set bfs \<Longrightarrow> g r x = Inr y \<Longrightarrow> frame x y"
    and step: "\<And>x y. schedules x (name r) = Some (num_tables a) \<Longrightarrow> same_config a x
                 \<Longrightarrow> f r x = Inr y \<Longrightarrow> Q y"
    and stable: "\<And>x y. Q x \<Longrightarrow> same_config x y \<Longrightarrow> Q y"
  shows "Q b"
proof -
  define s1 where "s1 = fold NewBoolVar
      (concat (map (\<lambda>d. map (\<lambda>sh. Call (num_tables a) d sh) (shifts a)) (days a))) a"
  define s2 where "s2 = s1\<lparr>schedules := (schedules s1)(name r \<mapsto> num_tables a),
      num_tables := Suc (num_tables a)\<rparr>"
  have f1: "frame a s1" unfolding s1_def by (rule fold_NewBoolVar_frame)
  have c2: "same_config a s2"
    using f1 unfolding s2_def frame_def same_config_def by simp
  have m2: "schedules s2 (name r) = Some (num_tables a)" by (simp add: s2_def)
  from run obtain s3 where s3: "for_each bfs (\<lambda>func. func r) s2 = Inr s3"
    and fin: "(if on_trauma r \<and> classification s3 = Junior then balance_trauma_call r s3
               else Inr s3) = Inr b"
    unfolding add_resident_model_def Let_def bindE_def s1_def [symmetric] s2_def [symmetric]
    by (auto split: sum.splits)
  have "Q s3"
  proof (rule for_each_establishes [OF s3 mem])
    fix g x y assume "g \<in> set bfs" "g r x = Inr y"
    then show "frame x y" by (rule bfs)
  next
    fix x y assume fr: "frame s2 x" and fx: "f r x = Inr y"
    have "schedules x (name r) = Some (num_tables a)" using fr m2 by (simp add: frame_def)
    moreover have "same_config a x"
      using c2 frame_same_config [OF fr] by (rule same_config_trans)
    ultimately show "Q y" using fx by (rule step)
  next
    fix x y assume "Q x" "frame x y"
    then show "Q y" using stable frame_same_config by blast
  qed
  moreover have "frame s3 b" using fin
    by (auto split: if_splits intro: frame_refl balance_trauma_call_frame)
  ultimately show ?thesis using stable frame_same_config by blast
qed

text \<open>The \<open>i\<close>-th resident gets the table number \<open>num_tables s + i\<close>.\<close>

lemma residents_phase:
  assumes "for_each rs body s = Inr s'" and "i < length rs"
    and grow: "\<And>r a b. body r a = Inr b \<Longrightarrow> same_config a b \<and> num_tables b = Suc (num_tables a)"
    and "\<And>a b. same_config s a \<Longrightarrow> num_tables a = num_tables s + i
            \<Longrightarrow> body (rs ! i) a = Inr b \<Longrightarrow> Q b"
    and stable: "\<And>a b. Q a \<Longrightarrow> same_config a b \<Longrightarrow> Q b"
  shows "Q s'"
  using assms(1,2,4)
proof (induction rs arbitrary: s i)
  case Nil
  then show ?case by simp
next
  case (Cons r rs)
  from Cons.prems(1) obtain s1 where s1: "body r s = Inr s1" and rest: "for_each rs body s1 = Inr s'"
    by (auto split: sum.splits)
  have g1: "same_config s s1" "num_tables s1 = Suc (num_tables s)" using grow [OF s1] by simp_all
  have grow_rest: "same_config s1 s'"
    using rest
  proof (induction rs arbitrary: s1)
    case Nil
    then show ?case by (simp add: same_config_refl)
  next
    case (Cons q qs)
    then show ?case by (auto split: sum.splits dest!: grow intro: same_config_trans)
  qed
  show ?case
  proof (cases i)
    case 0
    have "Q s1" using Cons.prems(3) [OF same_config_refl] s1 0 by simp
    then show ?thesis using grow_rest by (rule stable)
  next
    case (Suc j)
    have j: "j < length rs" using Cons.prems(2) Suc by simp
    show ?thesis
    proof (rule Cons.IH [OF rest j])
      fix a b assume a: "same_config s1 a" "num_tables a = num_tables s1 + j" "body (rs ! j) a = Inr b"
      have "same_config s a" using g1(1) a(1) by (rule same_config_trans)
      moreover have "num_tables a = num_tables s + i" using a(2) g1(2) Suc by simp
      moreover have "body ((r # rs) ! i) a = Inr b" using a(3) Suc by simp
      ultimately show "Q b" by (rule Cons.prems(3))
    qed
  qed
qed

subsection \<open>From a rule function to the compiled model\<close>

lemma junior_build_functions_frame:
  "g \<in> set junior_build_functions \<Longrightarrow> g r x = Inr y \<Longrightarrow> frame x y"
  unfolding junior_build_functions_def friday_implies_sunday_def [abs_def]
  by (auto dest: emergency_wednesday_halfday_frame cant_book_vacation_days_frame
      trauma_day_call_frame post_call_days_frame prefer_full_day_call_frame
      penalize_multiple_fridays_frame disperse_call_frame set_shift_expectations_frame
      implies_later_day_frame assign_claimed_days_frame)

lemma senior_build_functions_frame:
  "g \<in> set senior_build_functions \<Longrightarrow> g r x = Inr y \<Longrightarrow> frame x y"
  unfolding senior_build_functions_def friday_implies_saturday_def [abs_def]
  by (auto dest: cant_book_vacation_days_frame post_call_days_frame
      penalize_multiple_fridays_frame disperse_call_frame set_shift_expectations_frame
      implies_later_day_frame assign_claimed_days_frame)

lemma build_functions_frame:
  "build_functions_of c = Inr bfs \<Longrightarrow> g \<in> set bfs \<Longrightarrow> g r x = Inr y \<Longrightarrow> frame x y"
  unfolding build_functions_of_def
  by (cases c) (auto dest: junior_build_functions_frame senior_build_functions_frame)

lemma resident_step_grow:
  assumes "resident_step r a = Inr b"
  shows "same_config a b \<and> num_tables b = Suc (num_tables a)"
proof -
  from assms obtain bfs where b: "build_functions_of (classification a) = Inr bfs"
    and run: "add_resident_model r bfs a = Inr b"
    unfolding resident_step_def bindE_def by (auto split: sum.splits)
  have fr: "frame x y" if "g \<in> set bfs" "g r x = Inr y" for g x y
    using build_functions_frame [OF b] that by blast
  show ?thesis
    using add_resident_model_grow(1) [OF run fr] add_resident_model_grow(2) [OF run fr]
    by simp
qed

lemma cover_shift_frame: "cover_shift d sh a = Inr b \<Longrightarrow> frame a b"
  unfolding cover_shift_def bindE_def
  by (auto split: sum.splits intro!: frame_intros)

lemma cover_day_frame: "cover_day d a = Inr b \<Longrightarrow> frame a b"
  unfolding cover_day_def bindE_def
  by (auto split: sum.splits if_splits elim!: for_each_frame dest: cover_shift_frame
      simp: frame_refl)

lemma setup_model_phases:
  assumes "setup_model s = Inr s'"
  obtains rs s2 s3 ps where "residents_info s = Some rs"
    and "for_each rs resident_step (s\<lparr>penalties := Some []\<rparr>) = Inr s2"
    and "for_each (days s2) cover_day s2 = Inr s3"
    and "s' = s3\<lparr>objective := Some ps\<rparr>"
  using assms
  unfolding setup_model_def Let_def bindE_def attr_def resident_step_def [abs_def] bindE_def
  by (auto split: sum.splits option.splits)

lemma residents_grow:
  "for_each rs resident_step a = Inr b \<Longrightarrow> same_config a b"
proof (induction rs arbitrary: a)
  case Nil
  then show ?case by (simp add: same_config_refl)
next
  case (Cons r rs)
  then show ?case
    by (auto split: sum.splits dest!: resident_step_grow intro: same_config_trans)
qed

lemma setup_model_same_config:
  assumes "setup_model s = Inr s'"
  shows "same_config s s'"
proof -
  from assms obtain rs s2 s3 ps where
    p1: "for_each rs resident_step (s\<lparr>penalties := Some []\<rparr>) = Inr s2"
    and p2: "for_each (days s2) cover_day s2 = Inr s3"
    and fin: "s' = s3\<lparr>objective := Some ps\<rparr>"
    by (rule setup_model_phases)
  have "same_config s (s\<lparr>penalties := Some []\<rparr>)" by (simp add: same_config_def)
  moreover have "same_config (s\<lparr>penalties := Some []\<rparr>) s2" using p1 by (rule residents_grow)
  moreover have "same_config s2 s3"
    using for_each_frame [OF p2] cover_day_frame frame_same_config by blast
  moreover have "same_config s3 s'" by (simp add: fin same_config_def)
  ultimately show ?thesis by (blast intro: same_config_trans)
qed

text \<open>
  Whatever a rule function of the selected list establishes when it runs for the \<open>i\<close>-th
  resident holds of the model \<open>setup_model\<close> returns.
\<close>

lemma setup_model_establishes:
  assumes run: "setup_model s = Inr s'"
    and rs: "residents_info s = Some rs" and i: "i < length rs"
    and bfs: "build_functions_of (classification s) = Inr bfs" and mem: "f \<in> set bfs"
    and step: "\<And>x y. schedules x (name (rs ! i)) = Some (num_tables s + i) \<Longrightarrow> same_config s x
                 \<Longrightarrow> f (rs ! i) x = Inr y \<Longrightarrow> Q y"
    and stable: "\<And>x y. Q x \<Longrightarrow> same_config x y \<Longrightarrow> Q y"
  shows "Q s'"
proof -
  from run rs obtain s2 s3 ps where
    p1: "for_each rs resident_step (s\<lparr>penalties := Some []\<rparr>) = Inr s2"
    and p2: "for_each (days s2) cover_day s2 = Inr s3"
    and fin: "s' = s3\<lparr>objective := Some ps\<rparr>"
    by (auto elim: setup_model_phases)
  let ?s1 = "s\<lparr>penalties := Some []\<rparr>"
  have c1: "same_config s ?s1" by (simp add: same_config_def)
  have "Q s2"
  proof (rule residents_phase [OF p1 i])
    fix r a b assume "resident_step r a = Inr b"
    then show "same_config a b \<and> num_tables b = Suc (num_tables a)" by (rule resident_step_grow)
  next
    fix a b assume a: "same_config ?s1 a" "num_tables a = num_tables ?s1 + i"
      "resident_step (rs ! i) a = Inr b"
    have ca: "same_config s a" using c1 a(1) by (rule same_config_trans)
    then have "classification a = classification s" by (simp add: same_config_def)
    with a(3) bfs have run_i: "add_resident_model (rs ! i) bfs a = Inr b"
      unfolding resident_step_def bindE_def by simp
    have fr: "frame x y" if "g \<in> set bfs" "g (rs ! i) x = Inr y" for g x y
      using build_functions_frame [OF bfs] that by blast
    show "Q b"
    proof (rule add_resident_model_establishes [OF run_i mem])
      fix g x y assume "g \<in> set bfs" "g (rs ! i) x = Inr y"
      then show "frame x y" by (rule fr)
    next
      fix x y assume x: "schedules x (name (rs ! i)) = Some (num_tables a)" "same_config a x"
        "f (rs ! i) x = Inr y"
      have "schedules x (name (rs ! i)) = Some (num_tables s + i)" using x(1) a(2) by simp
      moreover have "same_config s x" using ca x(2) by (rule same_config_trans)
      ultimately show "Q y" using x(3) by (rule step)
    next
      fix x y assume "Q x" "same_config x y"
      then show "Q y" by (rule stable)
    qed
  qed (rule stable)
  moreover have "same_config s2 s3"
    using for_each_frame [OF p2] cover_day_frame frame_same_config by blast
  ultimately have "Q s3" by (rule stable)
  moreover have "same_config s3 s'" by (simp add: fin same_config_def)
  ultimately show ?thesis by (rule stable)
qed

lemma solution_holds: "solution s \<sigma> \<Longrightarrow> c \<in> set (constraints s) \<Longrightarrow> holds \<sigma> c"
  by (simp add: solution_def list_all_iff)

subsection \<open>What the rule functions add\<close>

lemma trauma_day_call_adds:
  assumes run: "trauma_day_call r a = Inr b" and nt: "\<not> on_trauma r"
    and d: "d \<in> set (working_days a)" and t: "schedules a (name r) = Some t"
  shows "\<exists>fs v. first_shift a = Inr fs \<and> table_var a t d fs = Inr v
           \<and> Linear (V v) EQ (Const 0) \<in> set (constraints b)"
proof -
  let ?body = "\<lambda>d s'. bindE (first_shift s') (\<lambda>sh. fix_var (name r) d sh 0 s')"
  from run nt have loop: "for_each (working_days a) ?body a = Inr b"
    by (simp add: trauma_day_call_def)
  let ?Q = "\<lambda>b. \<exists>fs v. first_shift a = Inr fs \<and> table_var a t d fs = Inr v
           \<and> Linear (V v) EQ (Const 0) \<in> set (constraints b)"
  show ?thesis
  proof (rule for_each_establishes [where Q = ?Q, OF loop d])
    fix y x z assume "?body y x = Inr z"
    then show "frame x z"
      by (auto simp: bindE_def split: sum.splits dest: fix_var_frame)
  next
    fix x y assume fr: "frame a x" and step: "?body d x = Inr y"
    from step obtain fs v where "first_shift x = Inr fs" "sched_var x (name r) d fs = Inr v"
      "y = Add (Linear (V v) EQ (Const 0)) x"
      unfolding bindE_def fix_var_def by (auto split: sum.splits)
    then show "?Q y"
      using frame_lookups [OF fr] sched_var_table [OF t] by (auto simp: Add_def)
  next
    fix x y assume "?Q x" "frame x y"
    then show "?Q y" by (blast intro: frame_constraints)
  qed
qed

lemma pair_loop_adds:
  assumes loop: "for_each (shifts x) body x = Inr y" and sh: "sh \<in> set (shifts a)"
    and fr: "frame a x" and t: "schedules a nm = Some t"
    and body: "body = (\<lambda>sh s''. bindE (last_shift s'') (\<lambda>l.
                                  bindE (sched_var s'' nm d l) (\<lambda>va.
                                  bindE (sched_var s'' nm d2 sh) (\<lambda>vb.
                                    Inr (Add (mk va vb) s'')))))"
  shows "\<exists>l va vb. last_shift a = Inr l \<and> table_var a t d l = Inr va
           \<and> table_var a t d2 sh = Inr vb \<and> mk va vb \<in> set (constraints y)"
proof -
  let ?Q = "\<lambda>y. \<exists>l va vb. last_shift a = Inr l \<and> table_var a t d l = Inr va
           \<and> table_var a t d2 sh = Inr vb \<and> mk va vb \<in> set (constraints y)"
  have sh': "sh \<in> set (shifts x)" using sh frame_fields(4) [OF fr] by simp
  show ?thesis
  proof (rule for_each_establishes [where Q = ?Q, OF loop sh'])
    fix q u w assume "body q u = Inr w"
    then show "frame u w"
      unfolding body bindE_def by (auto split: sum.splits intro!: frame_intros)
  next
    fix u w assume fu: "frame x u" and step: "body sh u = Inr w"
    have fau: "frame a u" using fr fu by (rule frame_trans)
    from step obtain l va vb where "last_shift u = Inr l" "sched_var u nm d l = Inr va"
      "sched_var u nm d2 sh = Inr vb" "w = Add (mk va vb) u"
      unfolding body bindE_def by (auto split: sum.splits)
    then show "?Q w"
      using frame_lookups [OF fau] sched_var_table [OF t] by (auto simp: Add_def)
  next
    fix u w assume "?Q u" "frame u w"
    then show "?Q w" by (blast intro: frame_constraints)
  qed
qed

lemma post_call_days_adds:
  assumes run: "post_call_days ig r a = Inr b"
    and d: "0 \<le> d" "d + 1 < num_days a" and ign: "Some (d mod 7) \<noteq> ig"
    and sh: "sh \<in> set (shifts a)" and t: "schedules a (name r) = Some t"
  shows "\<exists>l va vb. last_shift a = Inr l \<and> table_var a t d l = Inr va
           \<and> table_var a t (d + 1) sh = Inr vb
           \<and> AtMostOne [Pos va, Pos vb] \<in> set (constraints b)"
proof -
  let ?Q = "\<lambda>y. \<exists>l va vb. last_shift a = Inr l \<and> table_var a t d l = Inr va
           \<and> table_var a t (d + 1) sh = Inr vb
           \<and> AtMostOne [Pos va, Pos vb] \<in> set (constraints y)"
  have mem: "d \<in> set [0 .. num_days a - 1 - 1]" using d by simp
  note loop = run [unfolded post_call_days_def]
  show ?thesis
  proof (rule for_each_establishes [where Q = ?Q, OF loop mem])
    fix q u w
    assume "(if Some (q mod 7) \<noteq> ig
             then for_each (shifts u)
                    (\<lambda>sh s''. bindE (last_shift s'') (\<lambda>l.
                               bindE (sched_var s'' (name r) q l) (\<lambda>a.
                               bindE (sched_var s'' (name r) (q + 1) sh) (\<lambda>b.
                                 Inr (Add (AtMostOne [Pos a, Pos b]) s''))))) u
             else Inr u) = Inr w"
    then show "frame u w"
      unfolding bindE_def
      by (auto split: if_splits sum.splits elim!: for_each_frame intro!: frame_intros)
  next
    fix u w assume fu: "frame a u"
      and step: "(if Some (d mod 7) \<noteq> ig
             then for_each (shifts u)
                    (\<lambda>sh s''. bindE (last_shift s'') (\<lambda>l.
                               bindE (sched_var s'' (name r) d l) (\<lambda>a.
                               bindE (sched_var s'' (name r) (d + 1) sh) (\<lambda>b.
                                 Inr (Add (AtMostOne [Pos a, Pos b]) s''))))) u
             else Inr u) = Inr w"
    from step ign have inner: "for_each (shifts u)
                    (\<lambda>sh s''. bindE (last_shift s'') (\<lambda>l.
                               bindE (sched_var s'' (name r) d l) (\<lambda>a.
                               bindE (sched_var s'' (name r) (d + 1) sh) (\<lambda>b.
                                 Inr (Add (AtMostOne [Pos a, Pos b]) s''))))) u = Inr w"
      by simp
    show "?Q w"
      by (rule pair_loop_adds [where mk = "\<lambda>va vb. AtMostOne [Pos va, Pos vb]",
            OF inner sh fu t refl])
  next
    fix u w assume "?Q u" "frame u w"
    then show "?Q w" by (blast intro: frame_constraints)
  qed
qed


lemma setup_model_classification:
  assumes run: "setup_model s = Inr s'" and rs: "residents_info s = Some rs" and ne: "rs \<noteq> []"
  shows "classification s = Junior \<or> classification s = Senior"
proof (rule ccontr)
  assume "\<not> ?thesis"
  then have other: "classification s = OtherClass" by (cases "classification s") simp_all
  from run rs obtain s2 where "for_each rs resident_step (s\<lparr>penalties := Some []\<rparr>) = Inr s2"
    by (auto elim: setup_model_phases)
  with ne other show False
    by (cases rs) (auto simp: resident_step_def bindE_def build_functions_of_def
        split: sum.splits)
qed

lemma at_most_one_pair: "holds \<sigma> (AtMostOne [Pos a, Pos b]) \<Longrightarrow> \<not> (\<sigma> a = 1 \<and> \<sigma> b = 1)"
  by (auto simp: count_true_def)

lemma table_var_day_in_range:
  "table_var s t d sh = Inr v \<Longrightarrow> - int (length (days s)) \<le> d \<and> d < int (length (days s))"
  unfolding table_var_def Let_def by (auto split: if_splits)

subsection \<open>Coverage, the bounded pattern and the constructor\<close>

lemma eval_simps:
  "eval \<sigma> (Const c) = c" "eval \<sigma> (V v) = \<sigma> v" "eval \<sigma> (Sum vs) = sum_list (map \<sigma> vs)"
  by (simp_all add: eval_def)

lemma mapE_length: "mapE f xs = Inr ys \<Longrightarrow> length ys = length xs"
  by (induction xs arbitrary: ys) (auto split: sum.splits)

lemma count_true_Pos: "count_true \<sigma> (map Pos vs) = length (filter (\<lambda>v. \<sigma> v = 1) vs)"
  by (induction vs) (simp_all add: count_true_def)

lemma cover_shift_adds:
  assumes "cover_shift d sh x = Inr y" and "residents_info x = Some rs"
  shows "\<exists>vs. mapE (\<lambda>r. sched_var x (name r) d sh) rs = Inr vs
           \<and> ExactlyOne (map Pos vs) \<in> set (constraints y)"
  using assms unfolding cover_shift_def bindE_def attr_def
  by (auto split: sum.splits simp: Add_def)

text \<open>\<open>strictly_bounded\<close> in closed form: three variables, seven constraints, two penalties.\<close>

lemma strictly_bounded_eq:
  "strictly_bounded r calculation lower_bound upper_bound descr s =
     (case table_of s (name r) of Inl e \<Rightarrow> Inl e
      | Inr t \<Rightarrow>
          (case penalties s of None \<Rightarrow> Inl AttributeError
           | Some ps \<Rightarrow>
               Inr (s\<lparr>variables := variables s @
                         [(Taken descr t, 0, int (length (days s))),
                          (LowerBoundReached descr t, 0, 1),
                          (UpperBoundReached descr t, 0, 1)],
                       constraints := constraints s @
                         [Linear (V (Taken descr t)) EQ calculation,
                          Linear (V (Taken descr t)) GE (Const lower_bound),
                          Linear (V (Taken descr t)) LE (Const upper_bound),
                          OnlyEnforceIf (Pos (LowerBoundReached descr t))
                            (Linear (V (Taken descr t)) EQ (Const lower_bound)),
                          OnlyEnforceIf (Pos (UpperBoundReached descr t))
                            (Linear (V (Taken descr t)) EQ (Const upper_bound)),
                          OnlyEnforceIf (Neg (LowerBoundReached descr t))
                            (Linear (V (Taken descr t)) NE (Const lower_bound)),
                          OnlyEnforceIf (Neg (UpperBoundReached descr t))
                            (Linear (V (Taken descr t)) NE (Const upper_bound))],
                       penalties := Some (ps @ [LowerBoundReached descr t,
                                                UpperBoundReached descr t])\<rparr>)))"
  by (simp add: strictly_bounded_def bindE_def attr_def Let_def append_penalty_def
      NewIntVar_def NewBoolVar_def Add_def split: sum.splits option.splits)

lemma strictly_bounded_props:
  assumes run: "strictly_bounded r calculation lower_bound upper_bound descr s = Inr s'"
    and sol: "solution s' \<sigma>"
  shows "\<exists>t ps. table_of s (name r) = Inr t \<and> penalties s = Some ps
           \<and> penalties s' = Some (ps @ [LowerBoundReached descr t, UpperBoundReached descr t])
           \<and> lower_bound \<le> eval \<sigma> calculation \<and> eval \<sigma> calculation \<le> upper_bound
           \<and> (\<sigma> (LowerBoundReached descr t) = 1 \<longleftrightarrow> eval \<sigma> calculation = lower_bound)
           \<and> (\<sigma> (UpperBoundReached descr t) = 1 \<longleftrightarrow> eval \<sigma> calculation = upper_bound)
           \<and> penalty_total \<sigma> (ps @ [LowerBoundReached descr t, UpperBoundReached descr t])
               = penalty_total \<sigma> ps
                 + (if eval \<sigma> calculation = lower_bound then 1 else 0)
                 + (if eval \<sigma> calculation = upper_bound then 1 else 0)"
proof -
  from run obtain t ps where t: "table_of s (name r) = Inr t" and ps: "penalties s = Some ps"
    and s': "s' = s\<lparr>variables := variables s @
                         [(Taken descr t, 0, int (length (days s))),
                          (LowerBoundReached descr t, 0, 1),
                          (UpperBoundReached descr t, 0, 1)],
                       constraints := constraints s @
                         [Linear (V (Taken descr t)) EQ calculation,
                          Linear (V (Taken descr t)) GE (Const lower_bound),
                          Linear (V (Taken descr t)) LE (Const upper_bound),
                          OnlyEnforceIf (Pos (LowerBoundReached descr t))
                            (Linear (V (Taken descr t)) EQ (Const lower_bound)),
                          OnlyEnforceIf (Pos (UpperBoundReached descr t))
                            (Linear (V (Taken descr t)) EQ (Const upper_bound)),
                          OnlyEnforceIf (Neg (LowerBoundReached descr t))
                            (Linear (V (Taken descr t)) NE (Const lower_bound)),
                          OnlyEnforceIf (Neg (UpperBoundReached descr t))
                            (Linear (V (Taken descr t)) NE (Const upper_bound))],
                       penalties := Some (ps @ [LowerBoundReached descr t,
                                                UpperBoundReached descr t])\<rparr>"
    unfolding strictly_bounded_eq by (auto split: sum.splits option.splits)
  let ?x = "\<sigma> (Taken descr t)"
  let ?lo = "\<sigma> (LowerBoundReached descr t)"
  let ?up = "\<sigma> (UpperBoundReached descr t)"
  from sol have dom: "0 \<le> ?lo" "?lo \<le> 1" "0 \<le> ?up" "?up \<le> 1"
    by (auto simp: solution_def s' in_domain_def)
  from sol have c: "?x = eval \<sigma> calculation" "lower_bound \<le> ?x" "?x \<le> upper_bound"
    "?lo = 1 \<longrightarrow> ?x = lower_bound" "?up = 1 \<longrightarrow> ?x = upper_bound"
    "?lo = 0 \<longrightarrow> ?x \<noteq> lower_bound" "?up = 0 \<longrightarrow> ?x \<noteq> upper_bound"
    by (auto simp: solution_def s' compare_def eval_simps)
  have lo: "?lo = 1 \<longleftrightarrow> eval \<sigma> calculation = lower_bound" using dom c by auto
  have up: "?up = 1 \<longleftrightarrow> eval \<sigma> calculation = upper_bound" using dom c by auto
  have lo01: "?lo = (if eval \<sigma> calculation = lower_bound then 1 else 0)" using dom lo by auto
  have up01: "?up = (if eval \<sigma> calculation = upper_bound then 1 else 0)" using dom up by auto
  have tot: "penalty_total \<sigma> (ps @ [LowerBoundReached descr t, UpperBoundReached descr t])
               = penalty_total \<sigma> ps + ?lo + ?up"
    by (simp add: penalty_total_def)
  have pen: "penalties s' = Some (ps @ [LowerBoundReached descr t, UpperBoundReached descr t])"
    by (simp add: s')
  show ?thesis
    using t ps pen c(1,2,3) lo up tot lo01 up01 by (intro exI [of _ t] exI [of _ ps]) simp
qed

lemma add_holiday_keeps:
  "add_holiday h a = Inr b \<Longrightarrow> residents_info b = residents_info a \<and> nofill b = nofill a
     \<and> days_to_fill b = days_to_fill a
     \<and> trauma_shift_multiplier b = trauma_shift_multiplier a"
  unfolding add_holiday_def by (auto split: if_splits)

lemma add_holidays_keep:
  "for_each hs add_holiday a = Inr b \<Longrightarrow> residents_info b = residents_info a
     \<and> nofill b = nofill a \<and> days_to_fill b = days_to_fill a
     \<and> trauma_shift_multiplier b = trauma_shift_multiplier a"
proof (induction hs arbitrary: a)
  case Nil
  then show ?case by simp
next
  case (Cons h hs)
  then show ?case by (auto split: sum.splits dest!: add_holiday_keeps)
qed

lemma init_nonempty_raises:
  assumes "rs \<noteq> []"
  shows "init n nofill_arg max_shifts extra (Some rs) holidays shifts_arg cls = Inl AttributeError"
proof -
  from assms obtain r rest where "rs = r # rest" by (cases rs) auto
  then show ?thesis
    by (simp add: init_def add_resident_info_def bindE_def attr_def Let_def)
qed

lemma init_registers_nobody:
  assumes "init n nofill_arg max_shifts extra ri holidays shifts_arg cls = Inr s"
  shows "residents_info s = None \<and> nofill s = Some nofill_arg
           \<and> days_to_fill s = Some (n - int (length nofill_arg))
           \<and> trauma_shift_multiplier s = 2"
proof -
  have "ri = None \<or> ri = Some []"
  proof (cases ri)
    case None
    then show ?thesis by simp
  next
    case (Some a)
    show ?thesis
    proof (cases "a = []")
      case True
      with Some show ?thesis by simp
    next
      case False
      from init_nonempty_raises [OF False] assms Some show ?thesis by simp
    qed
  qed
  with assms show ?thesis
    unfolding init_def Let_def bindE_def
    by (auto split: sum.splits dest!: add_holidays_keep)
qed

lemma add_resident_info_after_init:
  assumes "init n nofill_arg max_shifts extra ri holidays shifts_arg cls = Inr s"
    and "n - int (length nofill_arg) \<noteq> int (length (fold remove1 nofill_arg (on_vacation_days r)))"
  shows "\<exists>s'. add_resident_info r s = Inr s'
           \<and> residents_info s' = Some [r\<lparr>on_vacation_days := fold remove1 nofill_arg (on_vacation_days r)\<rparr>]"
  using init_registers_nobody [OF assms(1)] assms(2)
  by (simp add: add_resident_info_def bindE_def attr_def Let_def calculate_call_ratio_def
      resident_days_available_def)

subsection \<open>The table of a resident\<close>

text \<open>
  The theorems about a single resident name its variables by the number of its table,
  \<open>num_tables s + i\<close> for the \<open>i\<close>-th resident. When the names are distinct
  this is the table \<open>schedules\<close> holds for the name of the resident, so these are
  the variables the coverage constraints read.
\<close>

lemma resident_step_tables:
  assumes "resident_step r a = Inr b"
  shows "schedules b = (schedules a)(name r \<mapsto> num_tables a)"
    "num_tables b = Suc (num_tables a)"
proof -
  from assms obtain bfs where b: "build_functions_of (classification a) = Inr bfs"
    and run: "add_resident_model r bfs a = Inr b"
    unfolding resident_step_def bindE_def by (auto split: sum.splits)
  have fr: "frame x y" if "g \<in> set bfs" "g r x = Inr y" for g x y
    using build_functions_frame [OF b] that by blast
  show "schedules b = (schedules a)(name r \<mapsto> num_tables a)"
    using add_resident_model_grow(3) [OF run fr] by simp
  show "num_tables b = Suc (num_tables a)"
    using add_resident_model_grow(2) [OF run fr] by simp
qed

lemma residents_keep_other_tables:
  "for_each rs resident_step a = Inr b \<Longrightarrow> nm \<notin> name ` set rs
     \<Longrightarrow> schedules b nm = schedules a nm"
proof (induction rs arbitrary: a)
  case Nil
  then show ?case by simp
next
  case (Cons r rs)
  from Cons.prems(1) obtain a1 where a1: "resident_step r a = Inr a1"
    and rest: "for_each rs resident_step a1 = Inr b"
    by (auto split: sum.splits)
  have "schedules b nm = schedules a1 nm" using Cons.IH [OF rest] Cons.prems(2) by simp
  also have "\<dots> = schedules a nm"
    using resident_step_tables(1) [OF a1] Cons.prems(2) by simp
  finally show ?case .
qed

lemma residents_tables:
  "for_each rs resident_step a = Inr b \<Longrightarrow> distinct (map name rs) \<Longrightarrow> i < length rs
     \<Longrightarrow> schedules b (name (rs ! i)) = Some (num_tables a + i)"
proof (induction rs arbitrary: a i)
  case Nil
  then show ?case by simp
next
  case (Cons r rs)
  from Cons.prems(1) obtain a1 where a1: "resident_step r a = Inr a1"
    and rest: "for_each rs resident_step a1 = Inr b"
    by (auto split: sum.splits)
  note t1 = resident_step_tables [OF a1]
  show ?case
  proof (cases i)
    case 0
    have "name r \<notin> name ` set rs" using Cons.prems(2) by auto
    from residents_keep_other_tables [OF rest this] t1(1) 0 show ?thesis by simp
  next
    case (Suc j)
    have "schedules b (name (rs ! j)) = Some (num_tables a1 + j)"
      using Cons.IH [OF rest] Cons.prems(2,3) Suc by simp
    then show ?thesis using Suc t1(2) by simp
  qed
qed

lemma resident_tables:
  assumes run: "setup_model s = Inr s'" and rs: "residents_info s = Some rs"
    and dist: "distinct (map name rs)" and i: "i < length rs"
  shows "schedules s' (name (rs ! i)) = Some (num_tables s + i)"
proof -
  from run rs obtain s2 s3 ps where
    p1: "for_each rs resident_step (s\<lparr>penalties := Some []\<rparr>) = Inr s2"
    and p2: "for_each (days s2) cover_day s2 = Inr s3"
    and fin: "s' = s3\<lparr>objective := Some ps\<rparr>"
    by (auto elim: setup_model_phases)
  have f3: "frame s2 s3" using for_each_frame [OF p2] cover_day_frame by blast
  have "schedules s' = schedules s2" using frame_fields(9) [OF f3] by (simp add: fin)
  then show ?thesis using residents_tables [OF p1 dist i] by simp
qed

lemma resident_variable:
  assumes run: "setup_model s = Inr s'" and rs: "residents_info s = Some rs"
    and dist: "distinct (map name rs)" and i: "i < length rs"
  shows "sched_var s' (name (rs ! i)) d sh = table_var s (num_tables s + i) d sh"
  using sched_var_table [OF resident_tables [OF assms]]
    same_config_lookups(1) [OF setup_model_same_config [OF run]] by simp

lemmas build_defs =
  setup_model_def add_resident_model_def build_functions_of_def
  junior_build_functions_def senior_build_functions_def
  cover_day_def cover_shift_def
  fix_var_def assign_claimed_days_def sum_over_days_def
  balance_trauma_call_def emergency_wednesday_halfday_def trauma_day_call_def
  post_call_days_def prefer_full_day_call_def implies_later_day_def
  friday_implies_sunday_def friday_implies_saturday_def penalize_multiple_fridays_def
  disperse_call_def truthy_def expected_night_shifts_def set_shift_expectations_def
  cant_book_vacation_days_def
  sched_var_def table_of_def table_var_def first_shift_def last_shift_def
  NewIntVar_def NewBoolVar_def Add_def append_penalty_def attr_def
  MONDAY_def TUESDAY_def WEDNESDAY_def THURSDAY_def FRIDAY_def SATURDAY_def SUNDAY_def

lemmas init_defs =
  init_def add_resident_info_def calculate_call_ratio_def resident_days_available_def
  build_weekday_list_def range_step_def add_holiday_def attr_def
  MONDAY_def TUESDAY_def WEDNESDAY_def THURSDAY_def FRIDAY_def SATURDAY_def SUNDAY_def

subsection \<open>Evaluating the compiler on a concrete schedule\<close>

text \<open>
  The rewrite rules and congruence rules below make the simplifier run the compiler on a
  constant state call by value: the argument of a bind, a loop or a let is evaluated before
  the body is entered.
\<close>

lemma upto_from_0: "[0..j] = (if 0 \<le> j then 0 # [1..j] else [])"
  by (simp add: upto.simps)

lemma upto_from_1: "[1..j] = (if 1 \<le> j then 1 # [2..j] else [])"
  by (simp add: upto.simps)

lemma bindE_Inr: "bindE (Inr x) f = f x"
  by (simp add: bindE_def)

lemma bindE_Inl: "bindE (Inl e) f = Inl e"
  by (simp add: bindE_def)

lemma bindE_weak_cong: "m = m' \<Longrightarrow> bindE m f = bindE m' f"
  by simp

lemma for_each_weak_cong: "xs = xs' \<Longrightarrow> s = s' \<Longrightarrow> for_each xs f s = for_each xs' f s'"
  by simp

lemma mapE_weak_cong: "xs = xs' \<Longrightarrow> mapE f xs = mapE f xs'"
  by simp

lemmas cbv_congs = bindE_weak_cong for_each_weak_cong mapE_weak_cong let_weak_cong
  sum.case_cong_weak option.case_cong_weak if_weak_cong

lemmas cbv_simps = build_defs strictly_bounded_eq bindE_Inr bindE_Inl Let_def
  upto_from_0 upto_from_1

lemmas check_defs = solution_def in_domain_def eval_def compare_def count_true_def

lemma py_int_of_int: "py_int (of_int n) = n"
  by (simp add: py_int_def)

lemma py_int_numeral: "py_int (numeral k) = numeral k" "py_int 0 = 0" "py_int 1 = 1"
  using py_int_of_int [of "numeral k"] py_int_of_int [of 0] py_int_of_int [of 1] by simp_all

lemma py_int_values:
  "py_int (- (5 / 7)) = 0" "py_int (9 / 7) = 1" "py_int (15 / 7) = 2" "py_int (1 / 7) = 0"
  "py_int (- (1 / 3)) = 0" "py_int (5 / 3) = 1" "py_int (- (2 / 3)) = 0" "py_int (4 / 3) = 1"
  "py_int (25 / 21) = 1" "py_int (- (17 / 21)) = 0" "py_int (23 / 21) = 1"
  "py_int (- (19 / 21)) = 0" "py_int (17 / 7) = 2" "py_int (3 / 7) = 0"
  by code_simp+

subsection \<open>The two-day senior block\<close>

lemma two_day_block_fields:
  "classification two_day_block = Senior" "num_days two_day_block = 2"
  "trauma_shift_multiplier two_day_block = 2" "shifts two_day_block = [''night'']"
  "max_shifts_per_week two_day_block = 1" "extra_friday_penalty_amount two_day_block = 5"
  "half_day_call_penalty two_day_block = 2" "days two_day_block = [0, 1]"
  "schedules two_day_block = Map.empty" "num_tables two_day_block = 0"
  "residents_info two_day_block = Some [resident_A, resident_B]"
  "nofill two_day_block = Some [1]" "days_to_fill two_day_block = Some 1"
  "working_days two_day_block = [0, 1]" "weekends_and_holidays two_day_block = []"
  "call_ratio two_day_block = Some (1 / 2)" "variables two_day_block = []"
  "constraints two_day_block = []" "objective two_day_block = None"
  "penalties two_day_block = None"
  by (simp_all add: two_day_block_def)

lemma resident_A_fields:
  "name resident_A = ''A''" "on_vacation_days resident_A = []" "on_trauma resident_A = False"
  "on_emergency resident_A = False" "days_override resident_A = None"
  "claimed_days resident_A = []"
  by (simp_all add: resident_A_def)

lemma resident_B_fields:
  "name resident_B = ''B''" "on_vacation_days resident_B = []" "on_trauma resident_B = False"
  "on_emergency resident_B = False" "days_override resident_B = None"
  "claimed_days resident_B = []"
  by (simp_all add: resident_B_def)

lemma two_day_block_built:
  "bindE (bindE (init 2 [1] 1 5 None [] [''night''] Senior) (add_resident_info resident_A))
     (add_resident_info resident_B) = Inr two_day_block"
  by (simp add: init_defs bindE_def Let_def two_day_block_def resident_A_def resident_B_def
      upto_from_0 upto_from_1)

lemma two_day_eval:
  "case setup_model two_day_block of Inl e \<Rightarrow> False
   | Inr s \<Rightarrow> solution s two_day_roster \<and> schedules s = [''A'' \<mapsto> 0, ''B'' \<mapsto> 1]"
  by (simp add: cbv_simps py_int_numeral py_int_values two_day_block_fields
      resident_A_fields resident_B_fields check_defs two_day_roster_def cong: cbv_congs)

lemma two_day_compiled:
  "setup_model two_day_block = Inr two_day_model" "solution two_day_model two_day_roster"
  "schedules two_day_model = [''A'' \<mapsto> 0, ''B'' \<mapsto> 1]"
  using two_day_eval unfolding two_day_model_def
  by (cases "setup_model two_day_block"; simp)+

lemma two_day_model_fields:
  "days two_day_model = [0, 1]" "shifts two_day_model = [''night'']"
  using setup_model_same_config [OF two_day_compiled(1)]
  by (simp_all add: same_config_def two_day_block_fields)

lemma two_day_lookup:
  "sched_var two_day_model ''A'' 0 ''night'' = Inr (Call 0 0 ''night'')"
  "sched_var two_day_model ''B'' 0 ''night'' = Inr (Call 1 0 ''night'')"
  "sched_var two_day_model ''B'' 1 ''night'' = Inr (Call 1 1 ''night'')"
  by (simp_all add: sched_var_def table_of_def table_var_def bindE_def two_day_model_fields
      two_day_compiled(3))

subsection \<open>The junior day\<close>

lemma junior_day_fields:
  "classification junior_day = Junior" "num_days junior_day = 1"
  "trauma_shift_multiplier junior_day = 2" "shifts junior_day = [''day'', ''night'']"
  "max_shifts_per_week junior_day = 1" "extra_friday_penalty_amount junior_day = 5"
  "half_day_call_penalty junior_day = 2" "days junior_day = [0]"
  "schedules junior_day = Map.empty" "num_tables junior_day = 0"
  "residents_info junior_day = Some [resident_T, resident_N]"
  "nofill junior_day = Some []" "days_to_fill junior_day = Some 1"
  "working_days junior_day = [0]" "weekends_and_holidays junior_day = []"
  "call_ratio junior_day = Some (1 / 3)" "variables junior_day = []"
  "constraints junior_day = []" "objective junior_day = None"
  "penalties junior_day = None"
  by (simp_all add: junior_day_def)

lemma resident_T_fields:
  "name resident_T = ''T''" "on_vacation_days resident_T = []" "on_trauma resident_T = True"
  "on_emergency resident_T = False" "days_override resident_T = None"
  "claimed_days resident_T = []"
  by (simp_all add: resident_T_def)

lemma resident_N_fields:
  "name resident_N = ''N''" "on_vacation_days resident_N = []" "on_trauma resident_N = False"
  "on_emergency resident_N = False" "days_override resident_N = None"
  "claimed_days resident_N = []"
  by (simp_all add: resident_N_def)

lemma junior_day_built:
  "bindE (bindE (init 1 [] 1 5 None [] [''day'', ''night''] Junior) (add_resident_info resident_T))
     (add_resident_info resident_N) = Inr junior_day"
  by (simp add: init_defs bindE_def Let_def junior_day_def resident_T_def resident_N_def
      upto_from_0 upto_from_1)

lemma junior_day_eval:
  "case setup_model junior_day of Inl e \<Rightarrow> False | Inr s \<Rightarrow> solution s junior_day_roster"
  by (simp add: cbv_simps py_int_numeral py_int_values junior_day_fields
      resident_T_fields resident_N_fields check_defs junior_day_roster_def cong: cbv_congs)

lemma junior_day_compiled:
  "setup_model junior_day = Inr junior_day_model" "solution junior_day_model junior_day_roster"
  using junior_day_eval unfolding junior_day_model_def
  by (cases "setup_model junior_day"; simp)+

subsection \<open>The senior fortnight\<close>

lemma fortnight_block_fields:
  "classification fortnight_block = Senior" "num_days fortnight_block = 14"
  "trauma_shift_multiplier fortnight_block = 2" "shifts fortnight_block = [''night'']"
  "max_shifts_per_week fortnight_block = 1" "extra_friday_penalty_amount fortnight_block = 5"
  "half_day_call_penalty fortnight_block = 2"
  "days fortnight_block = [0, 1, 2, 3, 4, 5, 6, 7, 8, 9, 10, 11, 12, 13]"
  "schedules fortnight_block = Map.empty" "num_tables fortnight_block = 0"
  "residents_info fortnight_block = Some [resident_A5]"
  "nofill fortnight_block = Some [0, 1, 3, 6, 7, 8, 9, 10, 13]"
  "days_to_fill fortnight_block = Some 5"
  "working_days fortnight_block = [0, 7, 1, 8, 2, 9, 3, 10, 4, 11]"
  "weekends_and_holidays fortnight_block = [5, 12, 6, 13]"
  "call_ratio fortnight_block = Some 1" "variables fortnight_block = []"
  "constraints fortnight_block = []" "objective fortnight_block = None"
  "penalties fortnight_block = None"
  by (simp_all add: fortnight_block_def)

lemma resident_A5_fields:
  "name resident_A5 = ''A''" "on_vacation_days resident_A5 = []" "on_trauma resident_A5 = False"
  "on_emergency resident_A5 = False" "days_override resident_A5 = Some 5"
  "claimed_days resident_A5 = []"
  by (simp_all add: resident_A5_def)

lemma upt_0_2: "[0..<2] = [0, 1]"
  by code_simp

lemma fortnight_block_built:
  "bindE (init 14 [0, 1, 3, 6, 7, 8, 9, 10, 13] 1 5 None [] [''night''] Senior)
     (add_resident_info resident_A5) = Inr fortnight_block"
  by (simp add: init_defs bindE_def Let_def fortnight_block_def resident_A5_def
      upto_from_0 upto_from_1 upt_0_2)

lemma fortnight_eval:
  "case setup_model fortnight_block of Inl e \<Rightarrow> False
   | Inr s \<Rightarrow> solution s fortnight_roster \<and> objective s = Some fortnight_objective"
  by (simp add: cbv_simps py_int_numeral py_int_values fortnight_block_fields
      resident_A5_fields check_defs fortnight_roster_def fortnight_objective_def
      cong: cbv_congs)

lemma fortnight_compiled:
  "setup_model fortnight_block = Inr fortnight_model"
  "solution fortnight_model fortnight_roster"
  "objective fortnight_model = Some fortnight_objective"
  using fortnight_eval unfolding fortnight_model_def
  by (cases "setup_model fortnight_block"; simp)+

subsection \<open>The expected number of night shifts\<close>

lemma expected_night_shifts_override:
  "days_override r = Some n \<Longrightarrow> n \<noteq> 0 \<Longrightarrow> expected_night_shifts r s = Inr (of_int n)"
  by (simp add: expected_night_shifts_def truthy_def)

lemma expected_night_shifts_computed:
  "days_override r = None \<Longrightarrow> call_ratio s = Some cr \<Longrightarrow>
   expected_night_shifts r s =
     Inr (of_int (int (length (days s)) - int (length (on_vacation_days r))) * cr
          * (if on_trauma r then of_int (trauma_shift_multiplier s) else 1))"
  by (simp add: expected_night_shifts_def truthy_def bindE_def attr_def)

lemma expected_night_shifts_zero:
  "expected_night_shifts (r\<lparr>days_override := Some 0\<rparr>) s
     = expected_night_shifts (r\<lparr>days_override := None\<rparr>) s"
  by (simp add: expected_night_shifts_def truthy_def)

lemma frame_solution: "frame a b \<Longrightarrow> solution b \<sigma> \<Longrightarrow> solution a \<sigma>"
  unfolding solution_def list_all_iff frame_def same_config_def by blast

text \<open>
  The total of last shifts lies between the truncated \<open>expected - 1\<close> and
  \<open>expected + 1\<close>; with a non-zero override \<open>n\<close> that is \<open>n - 1\<close> to \<open>n + 1\<close>.
\<close>

lemma night_total_bounds:
  assumes run: "set_shift_expectations r s = Inr s'" and sol: "solution s' \<sigma>"
  shows "\<exists>e calc. expected_night_shifts r s = Inr e
           \<and> sum_over_days s (name r) last_shift (days s) = Inr calc
           \<and> py_int (e - 1) \<le> eval \<sigma> calc \<and> eval \<sigma> calc \<le> py_int (e + 1)"
proof -
  from run obtain e calc s1 calc2 where e: "expected_night_shifts r s = Inr e"
    and calc: "sum_over_days s (name r) last_shift (days s) = Inr calc"
    and b1: "strictly_bounded r calc (py_int (e - 1)) (py_int (e + 1)) ''total_shifts'' s = Inr s1"
    and b2: "strictly_bounded r calc2 (py_int (e * 2 / 7 - 1)) (py_int (e * 2 / 7 + 1))
               ''weekend_shift'' s1 = Inr s'"
    unfolding set_shift_expectations_def bindE_def Let_def
    by (auto split: sum.splits)
  have "solution s1 \<sigma>" using strictly_bounded_frame [OF b2] sol by (rule frame_solution)
  from strictly_bounded_props [OF b1 this] e calc show ?thesis by blast
qed

lemma override_window:
  assumes "days_override r = Some n" and "n \<noteq> 0"
    and "set_shift_expectations r s = Inr s'" and "solution s' \<sigma>"
  shows "\<exists>calc. sum_over_days s (name r) last_shift (days s) = Inr calc
           \<and> n - 1 \<le> eval \<sigma> calc \<and> eval \<sigma> calc \<le> n + 1"
proof -
  have e: "expected_night_shifts r s = Inr (of_int n)"
    using assms(1,2) by (rule expected_night_shifts_override)
  have "py_int (of_int n - 1) = n - 1" "py_int (of_int n + 1) = n + 1"
    using py_int_of_int [of "n - 1"] py_int_of_int [of "n + 1"] by simp_all
  with night_total_bounds [OF assms(3,4)] e show ?thesis by auto
qed

section \<open>The properties the specification states\<close>

text \<open>
  C1. For every solver object that \<open>setup_model\<close> compiles, every day of the horizon that
  is not in the no-fill list and every shift label, the model contains the exactly-one
  constraint over the variables \<open>schedules[name][day][shift]\<close> of all configured residents,
  and in every solution exactly one of them is 1.
\<close>

theorem coverage_exactly_one:
  assumes run: "setup_model s = Inr s'"
    and rs: "residents_info s = Some rs" and nf: "nofill s = Some nf"
    and d: "d \<in> set (days s)" and fill: "d \<notin> set nf" and sh: "sh \<in> set (shifts s)"
  shows "\<exists>vs. mapE (\<lambda>r. sched_var s' (name r) d sh) rs = Inr vs
           \<and> length vs = length rs
           \<and> ExactlyOne (map Pos vs) \<in> set (constraints s')
           \<and> (\<forall>\<sigma>. solution s' \<sigma> \<longrightarrow> length (filter (\<lambda>v. \<sigma> v = 1) vs) = 1)"
proof -
  from run rs obtain s2 s3 ps where
    p1: "for_each rs resident_step (s\<lparr>penalties := Some []\<rparr>) = Inr s2"
    and p2: "for_each (days s2) cover_day s2 = Inr s3"
    and fin: "s' = s3\<lparr>objective := Some ps\<rparr>"
    by (auto elim: setup_model_phases)
  have "same_config s (s\<lparr>penalties := Some []\<rparr>)" by (simp add: same_config_def)
  then have c2: "same_config s s2" using residents_grow [OF p1] by (rule same_config_trans)
  have f2: "days s2 = days s" "shifts s2 = shifts s" "residents_info s2 = Some rs"
    "nofill s2 = Some nf"
    using c2 rs nf by (simp_all add: same_config_def)
  let ?Q = "\<lambda>y. \<exists>vs. mapE (\<lambda>r. sched_var s2 (name r) d sh) rs = Inr vs
           \<and> ExactlyOne (map Pos vs) \<in> set (constraints y)"
  have d2: "d \<in> set (days s2)" using d f2 by simp
  have "?Q s3"
  proof (rule for_each_establishes [where Q = ?Q, OF p2 d2])
    fix q u w assume "cover_day q u = Inr w"
    then show "frame u w" by (rule cover_day_frame)
  next
    fix u w assume fu: "frame s2 u" and step: "cover_day d u = Inr w"
    have fu': "nofill u = Some nf" "shifts u = shifts s"
      using frame_fields [OF fu] f2 by simp_all
    from step fu' fill have inner: "for_each (shifts u) (cover_shift d) u = Inr w"
      by (simp add: cover_day_def bindE_def attr_def)
    have shu: "sh \<in> set (shifts u)" using sh fu' by simp
    show "?Q w"
    proof (rule for_each_establishes [where Q = ?Q, OF inner shu])
      fix q a b assume "cover_shift d q a = Inr b"
      then show "frame a b" by (rule cover_shift_frame)
    next
      fix a b assume fa: "frame u a" and st: "cover_shift d sh a = Inr b"
      have f2a: "frame s2 a" using fu fa by (rule frame_trans)
      have "residents_info a = Some rs" using frame_fields [OF f2a] f2 by simp
      from cover_shift_adds [OF st this] show "?Q b"
        using frame_lookups [OF f2a] by simp
    next
      fix a b assume "?Q a" "frame a b"
      then show "?Q b" by (blast intro: frame_constraints)
    qed
  next
    fix a b assume "?Q a" "frame a b"
    then show "?Q b" by (blast intro: frame_constraints)
  qed
  then obtain vs where vs: "mapE (\<lambda>r. sched_var s2 (name r) d sh) rs = Inr vs"
    "ExactlyOne (map Pos vs) \<in> set (constraints s3)" by blast
  have f3: "frame s2 s3" using for_each_frame [OF p2] cover_day_frame by blast
  have look: "sched_var s' = sched_var s2"
    using frame_fields [OF f3]
    by (simp add: fin sched_var_def table_of_def table_var_def fun_eq_iff Let_def cong: if_cong)
  have mem: "ExactlyOne (map Pos vs) \<in> set (constraints s')" using vs(2) by (simp add: fin)
  have "length (filter (\<lambda>v. \<sigma> v = 1) vs) = 1" if "solution s' \<sigma>" for \<sigma>
    using solution_holds [OF that mem] by (simp add: count_true_Pos)
  then show ?thesis using vs(1) mem mapE_length [OF vs(1)] look by auto
qed

text \<open>C1 at the two-day block, day 0, with the roster as the solution.\<close>

theorem coverage_exactly_one_witness:
  "setup_model two_day_block = Inr two_day_model
   \<and> residents_info two_day_block = Some [resident_A, resident_B]
   \<and> nofill two_day_block = Some [1]
   \<and> (0::int) \<in> set (days two_day_block) \<and> (0::int) \<notin> set [1]
   \<and> ''night'' \<in> set (shifts two_day_block)
   \<and> solution two_day_model two_day_roster
   \<and> (\<exists>vs. mapE (\<lambda>r. sched_var two_day_model (name r) 0 ''night'') [resident_A, resident_B]
               = Inr vs
          \<and> length vs = length [resident_A, resident_B]
          \<and> ExactlyOne (map Pos vs) \<in> set (constraints two_day_model)
          \<and> length (filter (\<lambda>v. two_day_roster v = 1) vs) = 1)"
proof -
  have h: "residents_info two_day_block = Some [resident_A, resident_B]"
    "nofill two_day_block = Some [1]" "(0::int) \<in> set (days two_day_block)"
    "(0::int) \<notin> set [1]" "''night'' \<in> set (shifts two_day_block)"
    by (simp_all add: two_day_block_fields)
  from coverage_exactly_one [OF two_day_compiled(1) h] two_day_compiled(2)
  show ?thesis using two_day_compiled(1) h by blast
qed

text \<open>
  C2. The claim is that the compiled model forces every resident's variables on a no-fill day
  to 0. \<open>cant_book_nofill_days\<close> would add these constraints, but \<open>setup_model\<close> has it in
  neither list of rule functions. At the two-day block, whose day 1 is no-fill, the compiled
  model has a solution in which B works the night of day 1.
\<close>

theorem nofill_day_is_not_excluded:
  "setup_model two_day_block = Inr two_day_model
   \<and> nofill two_day_block = Some [1]
   \<and> sched_var two_day_model ''B'' 1 ''night'' = Inr (Call 1 1 ''night'')
   \<and> solution two_day_model two_day_roster
   \<and> two_day_roster (Call 1 1 ''night'') = 1"
  by (simp add: two_day_compiled two_day_block_fields two_day_lookup two_day_roster_def)

text \<open>
  C3 as stated, for the senior classification too, fails: \<open>trauma_day_call\<close> is in the junior
  list only. In the two-day senior block A is not high-acuity, day 0 is a working day, and
  the compiled model has a solution in which A's variable for the first shift of day 0 is
  not 0.
\<close>

theorem day_call_senior_counterexample:
  "setup_model two_day_block = Inr two_day_model
   \<and> classification two_day_block = Senior
   \<and> residents_info two_day_block = Some [resident_A, resident_B]
   \<and> \<not> on_trauma ([resident_A, resident_B] ! 0)
   \<and> (0::int) \<in> set (working_days two_day_block)
   \<and> first_shift two_day_block = Inr ''night''
   \<and> table_var two_day_block (num_tables two_day_block + 0) 0 ''night'' = Inr (Call 0 0 ''night'')
   \<and> solution two_day_model two_day_roster
   \<and> two_day_roster (Call 0 0 ''night'') \<noteq> 0"
  by (simp add: two_day_compiled two_day_block_fields resident_A_fields first_shift_def
      table_var_def two_day_roster_def)

text \<open>
  C3, amended to the junior classification. For every junior schedule that compiles, every
  resident who is not high-acuity and every working day, the model contains the constraint
  that the resident's variable for the first shift of that day equals 0, so it is 0 in
  every solution.
\<close>

theorem day_call_only_high_acuity_junior:
  assumes run: "setup_model s = Inr s'" and cls: "classification s = Junior"
    and rs: "residents_info s = Some rs" and i: "i < length rs"
    and nt: "\<not> on_trauma (rs ! i)" and d: "d \<in> set (working_days s)"
  shows "\<exists>fs v. first_shift s = Inr fs \<and> table_var s (num_tables s + i) d fs = Inr v
           \<and> Linear (V v) EQ (Const 0) \<in> set (constraints s')
           \<and> (\<forall>\<sigma>. solution s' \<sigma> \<longrightarrow> \<sigma> v = 0)"
proof -
  let ?Q = "\<lambda>y. \<exists>fs v. first_shift s = Inr fs \<and> table_var s (num_tables s + i) d fs = Inr v
           \<and> Linear (V v) EQ (Const 0) \<in> set (constraints y)"
  have bfs: "build_functions_of (classification s) = Inr junior_build_functions"
    by (simp add: cls build_functions_of_def)
  have mem: "trauma_day_call \<in> set junior_build_functions"
    by (simp add: junior_build_functions_def)
  have "?Q s'"
  proof (rule setup_model_establishes [where Q = ?Q, OF run rs i bfs mem])
    fix x y assume x: "schedules x (name (rs ! i)) = Some (num_tables s + i)" "same_config s x"
      "trauma_day_call (rs ! i) x = Inr y"
    have "d \<in> set (working_days x)" using d x(2) by (simp add: same_config_def)
    from trauma_day_call_adds [OF x(3) nt this x(1)]
    show "?Q y" using same_config_lookups [OF x(2)] by simp
  next
    fix x y assume "?Q x" "same_config x y"
    then show "?Q y" by (blast intro: same_config_constraints)
  qed
  then obtain fs v where v: "first_shift s = Inr fs" "table_var s (num_tables s + i) d fs = Inr v"
    "Linear (V v) EQ (Const 0) \<in> set (constraints s')" by blast
  have "\<sigma> v = 0" if "solution s' \<sigma>" for \<sigma>
    using solution_holds [OF that v(3)] by (simp add: compare_def eval_def)
  with v show ?thesis by blast
qed

text \<open>C3 amended, at the junior day: resident N (index 1), day 0.\<close>

theorem day_call_only_high_acuity_junior_witness:
  "setup_model junior_day = Inr junior_day_model
   \<and> classification junior_day = Junior
   \<and> residents_info junior_day = Some [resident_T, resident_N]
   \<and> (1::nat) < length [resident_T, resident_N]
   \<and> \<not> on_trauma ([resident_T, resident_N] ! 1)
   \<and> (0::int) \<in> set (working_days junior_day)
   \<and> solution junior_day_model junior_day_roster
   \<and> Linear (V (Call 1 0 ''day'')) EQ (Const 0) \<in> set (constraints junior_day_model)
   \<and> junior_day_roster (Call 1 0 ''day'') = 0"
proof -
  have h: "classification junior_day = Junior"
    "residents_info junior_day = Some [resident_T, resident_N]"
    "(1::nat) < length [resident_T, resident_N]"
    "\<not> on_trauma ([resident_T, resident_N] ! 1)"
    "(0::int) \<in> set (working_days junior_day)"
    by (simp_all add: junior_day_fields resident_N_fields)
  have look: "first_shift junior_day = Inr ''day''"
    "table_var junior_day (num_tables junior_day + 1) 0 ''day'' = Inr (Call 1 0 ''day'')"
    by (simp_all add: first_shift_def table_var_def junior_day_fields)
  from day_call_only_high_acuity_junior [OF junior_day_compiled(1) h] look junior_day_compiled(2)
  show ?thesis using junior_day_compiled(1) h by auto
qed

text \<open>
  C4. For every schedule that compiles, every resident, every day \<open>d\<close> with \<open>d + 1\<close> in the
  horizon that is not the ignored weekday (none for juniors, Friday for seniors) and every
  shift, the model contains the at-most-one constraint over the last shift of day \<open>d\<close> and
  that shift of day \<open>d + 1\<close>; no solution assigns both.
\<close>

theorem post_call_at_most_one:
  assumes run: "setup_model s = Inr s'"
    and rs: "residents_info s = Some rs" and i: "i < length rs"
    and d: "0 \<le> d" "d + 1 < num_days s"
    and ign: "classification s = Senior \<longrightarrow> d mod 7 \<noteq> FRIDAY"
    and sh: "sh \<in> set (shifts s)"
  shows "\<exists>l va vb. last_shift s = Inr l
           \<and> table_var s (num_tables s + i) d l = Inr va
           \<and> table_var s (num_tables s + i) (d + 1) sh = Inr vb
           \<and> AtMostOne [Pos va, Pos vb] \<in> set (constraints s')
           \<and> (\<forall>\<sigma>. solution s' \<sigma> \<longrightarrow> \<not> (\<sigma> va = 1 \<and> \<sigma> vb = 1))"
proof -
  let ?t = "num_tables s + i"
  let ?Q = "\<lambda>y. \<exists>l va vb. last_shift s = Inr l \<and> table_var s ?t d l = Inr va
           \<and> table_var s ?t (d + 1) sh = Inr vb
           \<and> AtMostOne [Pos va, Pos vb] \<in> set (constraints y)"
  define ig where "ig = (if classification s = Senior then Some FRIDAY else None)"
  have ne: "rs \<noteq> []" using i by auto
  have cls: "classification s = Junior \<or> classification s = Senior"
    using run rs ne by (rule setup_model_classification)
  obtain bfs where bfs: "build_functions_of (classification s) = Inr bfs"
    and mem: "post_call_days ig \<in> set bfs"
    using cls unfolding ig_def
    by (auto simp: build_functions_of_def junior_build_functions_def senior_build_functions_def)
  have ign': "Some (d mod 7) \<noteq> ig" using ign by (simp add: ig_def)
  have "?Q s'"
  proof (rule setup_model_establishes [where Q = ?Q, OF run rs i bfs mem])
    fix x y assume x: "schedules x (name (rs ! i)) = Some ?t" "same_config s x"
      "post_call_days ig (rs ! i) x = Inr y"
    have f: "num_days x = num_days s" "shifts x = shifts s"
      using x(2) by (simp_all add: same_config_def)
    from post_call_days_adds [OF x(3) d(1) _ ign' _ x(1), of sh] d(2) sh f
    show "?Q y" using same_config_lookups [OF x(2)] by simp
  next
    fix x y assume "?Q x" "same_config x y"
    then show "?Q y" by (blast intro: same_config_constraints)
  qed
  then obtain l va vb where v: "last_shift s = Inr l" "table_var s ?t d l = Inr va"
    "table_var s ?t (d + 1) sh = Inr vb" "AtMostOne [Pos va, Pos vb] \<in> set (constraints s')"
    by blast
  have "\<not> (\<sigma> va = 1 \<and> \<sigma> vb = 1)" if "solution s' \<sigma>" for \<sigma>
    using solution_holds [OF that v(4)] by (rule at_most_one_pair)
  with v show ?thesis by blast
qed

text \<open>C4 at the two-day block: resident A, day 0.\<close>

theorem post_call_at_most_one_witness:
  "setup_model two_day_block = Inr two_day_model
   \<and> residents_info two_day_block = Some [resident_A, resident_B]
   \<and> (0::nat) < length [resident_A, resident_B]
   \<and> (0::int) \<le> 0 \<and> (0::int) + 1 < num_days two_day_block
   \<and> classification two_day_block = Senior \<and> (0::int) mod 7 \<noteq> FRIDAY
   \<and> ''night'' \<in> set (shifts two_day_block)
   \<and> solution two_day_model two_day_roster
   \<and> AtMostOne [Pos (Call 0 0 ''night''), Pos (Call 0 1 ''night'')]
        \<in> set (constraints two_day_model)
   \<and> two_day_roster (Call 0 0 ''night'') = 1
   \<and> two_day_roster (Call 0 1 ''night'') = 0"
proof -
  have h: "residents_info two_day_block = Some [resident_A, resident_B]"
    "(0::nat) < length [resident_A, resident_B]"
    "(0::int) \<le> 0" "(0::int) + 1 < num_days two_day_block"
    "classification two_day_block = Senior \<longrightarrow> (0::int) mod 7 \<noteq> FRIDAY"
    "''night'' \<in> set (shifts two_day_block)"
    by (simp_all add: two_day_block_fields FRIDAY_def)
  have look: "last_shift two_day_block = Inr ''night''"
    "table_var two_day_block (num_tables two_day_block + 0) 0 ''night'' = Inr (Call 0 0 ''night'')"
    "table_var two_day_block (num_tables two_day_block + 0) (0 + 1) ''night''
       = Inr (Call 0 1 ''night'')"
    by (simp_all add: last_shift_def table_var_def two_day_block_fields)
  from post_call_at_most_one [OF two_day_compiled(1) h] look two_day_compiled(2)
  show ?thesis using two_day_compiled(1) h
    by (auto simp: two_day_block_fields FRIDAY_def two_day_roster_def)
qed



text \<open>
  C6. The claim is that every solution in which a resident works the last shift of two
  Fridays a week apart carries \<open>extra_friday_penalty\<close> in the objective. The code ties the
  penalty to the conflict flag and the flag implies both Fridays, not the converse (the
  converse is commented out in the source). At the senior fortnight the roster is a solution
  in which A works the Fridays 4 and 11, the penalty variable of that pair is 0 and the
  whole objective is 1.
\<close>

theorem repeated_fridays_unpenalised:
  "setup_model fortnight_block = Inr fortnight_model
   \<and> solution fortnight_model fortnight_roster
   \<and> fortnight_roster (Call 0 4 ''night'') = 1
   \<and> fortnight_roster (Call 0 11 ''night'') = 1
   \<and> extra_friday_penalty_amount fortnight_block = 5
   \<and> objective fortnight_model = Some fortnight_objective
   \<and> FridayPenalty 0 4 11 \<in> set fortnight_objective
   \<and> fortnight_roster (FridayPenalty 0 4 11) = 0
   \<and> penalty_total fortnight_roster fortnight_objective = 1"
  by (simp add: fortnight_compiled fortnight_block_fields fortnight_roster_def
      fortnight_objective_def penalty_total_def)

text \<open>
  C7. The claim is that every solution in which a resident's shifts of an aligned week exceed
  the cap carries a positive dispersion penalty. Each \<open>weekly_exceeds\<close> flag enforces the
  total and the penalty when it is set, and nothing sets it. At the senior fortnight the
  roster is a solution in which A works 3 shifts in week 0 against a cap of 1, the penalty
  variable of that week is 0 and the whole objective is 1.
\<close>

theorem weekly_overage_unpenalised:
  "setup_model fortnight_block = Inr fortnight_model
   \<and> solution fortnight_model fortnight_roster
   \<and> max_shifts_per_week fortnight_block = 1
   \<and> sum_list (map fortnight_roster
        [Call 0 0 ''night'', Call 0 1 ''night'', Call 0 2 ''night'', Call 0 3 ''night'',
         Call 0 4 ''night'', Call 0 5 ''night'', Call 0 6 ''night'']) = 3
   \<and> objective fortnight_model = Some fortnight_objective
   \<and> WeeklyPenalty 0 0 \<in> set fortnight_objective
   \<and> fortnight_roster (WeeklyPenalty 0 0) = 0
   \<and> penalty_total fortnight_roster fortnight_objective = 1"
  by (simp add: fortnight_compiled fortnight_block_fields fortnight_roster_def
      fortnight_objective_def penalty_total_def)

text \<open>
  C8. The claim is that an override, 0 included, replaces the computed expectation. The code
  tests the override for truth, so 0 takes the computed branch: for a two-day senior block
  with the one resident A, override 0, the expectation is 2 (bounds 1 and 3), not 0.
\<close>

theorem override_zero_is_ignored:
  "bindE (bindE (init 2 [] 1 5 None [] [''night''] Senior) (add_resident_info resident_A0))
     (expected_night_shifts resident_A0) = Inr 2
   \<and> days_override resident_A0 = Some 0
   \<and> py_int (2 - 1) = 1 \<and> py_int (2 + 1) = 3"
  by (simp add: init_defs bindE_def Let_def resident_A0_def expected_night_shifts_def truthy_def
      upto_from_0 upto_from_1 py_int_def)

text \<open>
  C9. For every expression and bounds passed to \<open>strictly_bounded\<close>, in every solution of the
  resulting model the expression lies between the bounds, the lower flag is 1 exactly when
  the expression equals the lower bound, the upper flag is 1 exactly when it equals the
  upper bound, and the two flags, appended to the penalties, add 1 each to the penalty total
  when they are 1.
\<close>

theorem strictly_bounded_sound:
  assumes run: "strictly_bounded r calculation lower_bound upper_bound descr s = Inr s'"
    and sol: "solution s' \<sigma>"
  shows "\<exists>t ps. table_of s (name r) = Inr t \<and> penalties s = Some ps
           \<and> penalties s' = Some (ps @ [LowerBoundReached descr t, UpperBoundReached descr t])
           \<and> lower_bound \<le> eval \<sigma> calculation \<and> eval \<sigma> calculation \<le> upper_bound
           \<and> (\<sigma> (LowerBoundReached descr t) = 1 \<longleftrightarrow> eval \<sigma> calculation = lower_bound)
           \<and> (\<sigma> (UpperBoundReached descr t) = 1 \<longleftrightarrow> eval \<sigma> calculation = upper_bound)
           \<and> penalty_total \<sigma> (ps @ [LowerBoundReached descr t, UpperBoundReached descr t])
               = penalty_total \<sigma> ps
                 + (if eval \<sigma> calculation = lower_bound then 1 else 0)
                 + (if eval \<sigma> calculation = upper_bound then 1 else 0)"
  using assms by (rule strictly_bounded_props)

text \<open>C9 at the two-day block with A's table: the total of A's nights within 0 and 2.\<close>

theorem strictly_bounded_sound_witness:
  "strictly_bounded resident_A (Sum [Call 0 0 ''night'', Call 0 1 ''night'']) 0 2
      ''total_shifts'' table_ready
     = Inr (projr (strictly_bounded resident_A (Sum [Call 0 0 ''night'', Call 0 1 ''night'']) 0 2
         ''total_shifts'' table_ready))
   \<and> solution (projr (strictly_bounded resident_A (Sum [Call 0 0 ''night'', Call 0 1 ''night''])
         0 2 ''total_shifts'' table_ready)) two_day_roster
   \<and> penalties (projr (strictly_bounded resident_A (Sum [Call 0 0 ''night'', Call 0 1 ''night''])
         0 2 ''total_shifts'' table_ready))
       = Some [LowerBoundReached ''total_shifts'' 0, UpperBoundReached ''total_shifts'' 0]
   \<and> eval two_day_roster (Sum [Call 0 0 ''night'', Call 0 1 ''night'']) = 1
   \<and> two_day_roster (LowerBoundReached ''total_shifts'' 0) = 0
   \<and> two_day_roster (UpperBoundReached ''total_shifts'' 0) = 0
   \<and> penalty_total two_day_roster
        [LowerBoundReached ''total_shifts'' 0, UpperBoundReached ''total_shifts'' 0] = 0"
proof -
  let ?calc = "Sum [Call 0 0 ''night'', Call 0 1 ''night'']"
  let ?run = "strictly_bounded resident_A ?calc 0 2 ''total_shifts'' table_ready"
  have run: "?run = Inr (projr ?run)"
    by (simp add: strictly_bounded_eq table_ready_def table_of_def resident_A_fields)
  have sol: "solution (projr ?run) two_day_roster"
    by (simp add: strictly_bounded_eq table_ready_def table_of_def resident_A_fields
        two_day_block_fields check_defs two_day_roster_def)
  from strictly_bounded_sound [OF run sol]
  show ?thesis using run sol
    by (simp add: strictly_bounded_eq table_ready_def table_of_def resident_A_fields
        penalty_total_def two_day_roster_def eval_def)
qed

text \<open>
  C10. For every non-empty \<open>residents_info\<close> list the constructor raises AttributeError:
  \<open>add_resident_info\<close> reads \<open>self.nofill\<close> before the constructor has assigned it. (A
  constructor that returns has registered nobody, and \<open>add_resident_info\<close> then works:
  lemmas \<open>init_registers_nobody\<close> and \<open>add_resident_info_after_init\<close>.)
\<close>

theorem init_with_residents_raises:
  assumes "rs \<noteq> []"
  shows "init n nofill_arg max_shifts extra (Some rs) holidays shifts_arg cls = Inl AttributeError"
proof -
  from assms obtain r rest where "rs = r # rest" by (cases rs) auto
  then show ?thesis
    by (simp add: init_def add_resident_info_def bindE_def attr_def Let_def)
qed

text \<open>C10 with the one-entry list.\<close>

theorem init_with_residents_raises_witness:
  "[resident_A] \<noteq> []
   \<and> init 28 [] 1 5 (Some [resident_A]) [] [''day'', ''night''] Junior = Inl AttributeError"
  using init_with_residents_raises [of "[resident_A]" 28 "[]" 1 5 "[]" "[''day'', ''night'']" Junior]
  by simp

end
